theory Spec2Isabelle
  imports Main "HOL-Library.Word"
begin

section \<open>The level-document loader of \<^verbatim>\<open>src/supertux/level_parser.cpp\<close>\<close>

text \<open>
  A shallow embedding of \<^verbatim>\<open>LevelParser\<close>. The collaborators whose code is not part of
  the unit (the document reader, the sector builder, PhysFS, the statistics object, the
  default \<^verbatim>\<open>Level\<close>) are parameters, collected in the record \<open>env\<close>. Exceptions are
  values, the log stream and the translation registry are a trace of events, and the
  \<^verbatim>\<open>int\<close> counter of the filename search is a 32-bit word.
\<close>

subsection \<open>Exceptions and observable effects\<close>

text \<open>
  \<^verbatim>\<open>std::exception\<close> objects, identified by the text \<^verbatim>\<open>what()\<close> returns.
  \<open>Runtime_error\<close> is \<^verbatim>\<open>std::runtime_error\<close>, the only class this unit throws itself;
  \<open>Std_exception\<close> stands for any other class derived from \<^verbatim>\<open>std::exception\<close> that a
  collaborator throws.
\<close>

datatype exn = Std_exception string | Runtime_error string

fun what :: "exn \<Rightarrow> string" where
  "what (Std_exception msg) = msg"
| "what (Runtime_error msg) = msg"

text \<open>
  The effects of a call, in the order they happen: an entry written to \<^verbatim>\<open>log_info\<close> or
  \<^verbatim>\<open>log_warning\<close> (the text streamed before \<^verbatim>\<open>std::endl\<close>), a call of
  \<^verbatim>\<open>register_translation_directory\<close>, and, as instrumentation, every execution of an
  assignment to \<^verbatim>\<open>m_level.m_filename\<close>.
\<close>

datatype event =
    Log_info string
  | Log_warning string
  | Register_translation_directory string
  | Assign_filename string

subsection \<open>\<^verbatim>\<open>std::to_string(int)\<close> and \<^verbatim>\<open>operator<<(int)\<close>: decimal rendering\<close>

text \<open>\<open>digits\<close> asks \<open>digit_char\<close> only for a digit below ten.\<close>

definition digit_char :: "nat \<Rightarrow> char" where
  "digit_char d = ''0123456789'' ! d"

fun digits :: "nat \<Rightarrow> string" where
  "digits n = (if n < 10 then [digit_char n] else digits (n div 10) @ [digit_char (n mod 10)])"

declare digits.simps [simp del]

definition to_string :: "int \<Rightarrow> string" where
  "to_string i = (if i < 0 then CHR ''-'' # digits (nat (- i)) else digits (nat i))"

subsection \<open>The filename search\<close>

text \<open>
  The loop of \<^verbatim>\<open>from_nothing\<close> (lines 83-86) and of \<^verbatim>\<open>from_nothing_worldmap\<close>
  (lines 104-107):
  \<^verbatim>\<open>do { num++; level_file = prefix + std::to_string(num) + suffix; }
     while (PHYSFS_exists(level_file.c_str()));\<close>
  with \<open>prefix\<close> being \<^verbatim>\<open>basedir + "/level"\<close> or \<^verbatim>\<open>basedir + "/worldmap"\<close>. It returns the
  value of \<^verbatim>\<open>num\<close> at loop exit. \<^verbatim>\<open>num\<close> is an \<^verbatim>\<open>int\<close>: a 32-bit word read as two's
  complement, whose increment wraps (C++ leaves the overflow at \<open>2\<^sup>3\<^sup>1 - 1\<close> undefined; a
  search that finds a free positive suffix never reaches it). The loop may run forever:
  \<open>None\<close> is the search that never returns. \<open>exists p\<close> is the answer of
  \<^verbatim>\<open>PHYSFS_exists(p.c_str())\<close> for the \<^verbatim>\<open>std::string\<close> \<open>p\<close>.
\<close>

partial_function (option) probe :: "(string \<Rightarrow> bool) \<Rightarrow> string \<Rightarrow> string \<Rightarrow> 32 word \<Rightarrow> 32 word option" where
  "probe exists prefix suffix num =
     (if exists (prefix @ to_string (sint (num + 1)) @ suffix)
      then probe exists prefix suffix (num + 1)
      else Some (num + 1))"

declare probe.simps [code]

subsection \<open>Data\<close>

text \<open>
  Modelled from the spec: class \<^verbatim>\<open>Sector\<close> (\<^verbatim>\<open>sector.hpp\<close> is not part of the unit). A sector
  is opaque to the loader except for its name, which \<^verbatim>\<open>create\<close> sets through
  \<^verbatim>\<open>set_name\<close>; \<open>'c\<close> is everything else a sector holds.
\<close>

record 'c sector =
  sector_name :: string
  sector_content :: 'c

definition set_name :: "string \<Rightarrow> 'c sector \<Rightarrow> 'c sector" where
  "set_name name s = s\<lparr>sector_name := name\<rparr>"

text \<open>
  The fields of \<^verbatim>\<open>Level\<close> the unit reads and writes. \<open>'f\<close> is \<^verbatim>\<open>float\<close> (the target time is
  only stored), \<open>'t\<close> the statistics object.
\<close>

record ('c, 'f, 't) level =
  m_filename :: string
  m_name :: string
  m_author :: string
  m_contact :: string
  m_license :: string
  m_target_time :: 'f
  m_tileset :: string
  m_sectors :: "'c sector list"
  m_stats :: 't

text \<open>
  Modelled from the spec: \<^verbatim>\<open>Level::add_sector\<close> (\<^verbatim>\<open>level.cpp\<close> is not part of the unit)
  appends the sector to the level's sector sequence.
\<close>

definition add_sector :: "'c sector \<Rightarrow> ('c, 'f, 't) level \<Rightarrow> ('c, 'f, 't) level" where
  "add_sector s l = l\<lparr>m_sectors := m_sectors l @ [s]\<rparr>"

text \<open>
  Modelled from the spec: a \<^verbatim>\<open>ReaderDocument\<close> gives its file name (or context label), the
  name of its root node and the root node's mapping; \<open>'m\<close> is \<^verbatim>\<open>ReaderMapping\<close>.
\<close>

record 'm ReaderDocument =
  get_filename :: string
  get_root_name :: string
  get_root_mapping :: 'm

text \<open>
  The collaborators, as parameters. A call that can throw returns \<open>Inl\<close> of the
  exception. A typed read \<^verbatim>\<open>mapping.get(key, out)\<close> returns \<open>Inr None\<close> when the key is
  absent (\<^verbatim>\<open>out\<close> keeps its value) and \<open>Inr (Some v)\<close> when it assigns \<open>v\<close>. \<open>get_iter\<close> is the
  sequence of (key, child mapping) pairs the iterator yields, in document order.
  \<open>PHYSFS_exists p\<close> is \<^verbatim>\<open>PHYSFS_exists(p.c_str())\<close>. \<open>Statistics_init l\<close> is the state of
  \<^verbatim>\<open>m_stats\<close> after \<^verbatim>\<open>m_stats.init(l)\<close>, and \<open>Level_new\<close> the level that
  \<^verbatim>\<open>std::make_unique<Level>()\<close> constructs. A stream is the text it delivers.
\<close>

record ('m, 'c, 'f, 't) env =
  ReaderDocument_from_file :: "string \<Rightarrow> exn + 'm ReaderDocument"
  ReaderDocument_from_stream :: "string \<Rightarrow> string \<Rightarrow> exn + 'm ReaderDocument"
  get_int :: "'m \<Rightarrow> string \<Rightarrow> exn + 32 word option"
  get_string :: "'m \<Rightarrow> string \<Rightarrow> exn + string option"
  get_float :: "'m \<Rightarrow> string \<Rightarrow> exn + 'f option"
  get_iter :: "'m \<Rightarrow> (string \<times> 'm) list"
  SectorParser_from_reader :: "('c, 'f, 't) level \<Rightarrow> 'm \<Rightarrow> bool \<Rightarrow> exn + 'c sector"
  SectorParser_from_reader_old_format :: "('c, 'f, 't) level \<Rightarrow> 'm \<Rightarrow> bool \<Rightarrow> exn + 'c sector"
  SectorParser_from_nothing :: "('c, 'f, 't) level \<Rightarrow> 'c sector"
  PHYSFS_exists :: "string \<Rightarrow> bool"
  Statistics_init :: "('c, 'f, 't) level \<Rightarrow> 't"
  Level_new :: "('c, 'f, 't) level"

text \<open>
  A \<^verbatim>\<open>LevelParser\<close> (the level it refers to and its \<^verbatim>\<open>m_editable\<close> flag) together with
  the trace of effects so far. A member function maps the state before the call to the
  outcome (\<open>Inr ()\<close> for a normal return, \<open>Inl e\<close> for the exception \<open>e\<close>) and the state
  after it: what was written before an exception stays written.
\<close>

record ('c, 'f, 't) parser =
  m_level :: "('c, 'f, 't) level"
  m_editable :: bool
  trace :: "event list"

type_synonym ('c, 'f, 't) stmt = "('c, 'f, 't) parser \<Rightarrow> (exn + unit) \<times> ('c, 'f, 't) parser"

definition log_info :: "string \<Rightarrow> ('c, 'f, 't) parser \<Rightarrow> ('c, 'f, 't) parser" where
  "log_info msg p = p\<lparr>trace := trace p @ [Log_info msg]\<rparr>"

definition log_warning :: "string \<Rightarrow> ('c, 'f, 't) parser \<Rightarrow> ('c, 'f, 't) parser" where
  "log_warning msg p = p\<lparr>trace := trace p @ [Log_warning msg]\<rparr>"

text \<open>
  Modelled from the spec: \<^verbatim>\<open>register_translation_directory\<close> (declared outside the unit) is
  fire-and-forget; the call is recorded.
\<close>

definition register_translation_directory :: "string \<Rightarrow> event list \<Rightarrow> event list" where
  "register_translation_directory path tr = tr @ [Register_translation_directory path]"

text \<open>The assignment \<^verbatim>\<open>m_level.m_filename = filepath\<close>, recorded in the trace.\<close>

definition assign_filename :: "string \<Rightarrow> ('c, 'f, 't) parser \<Rightarrow> ('c, 'f, 't) parser" where
  "assign_filename filepath p =
     p\<lparr>m_level := (m_level p)\<lparr>m_filename := filepath\<rparr>, trace := trace p @ [Assign_filename filepath]\<rparr>"

text \<open>A statement that cannot throw, and a sequence of statements cut short by the first exception.\<close>

definition ok :: "(('c, 'f, 't) parser \<Rightarrow> ('c, 'f, 't) parser) \<Rightarrow> ('c, 'f, 't) stmt" where
  "ok f p = (Inr (), f p)"

fun block :: "('c, 'f, 't) stmt list \<Rightarrow> ('c, 'f, 't) stmt" where
  "block [] p = (Inr (), p)"
| "block (c # cs) p = (case c p of (Inl e, p') \<Rightarrow> (Inl e, p') | (Inr _, p') \<Rightarrow> block cs p')"

declare block.simps [simp del]

text \<open>\<^verbatim>\<open>mapping.get(key, m_level.field)\<close>: \<open>store\<close> writes the value read into the field.\<close>

definition read_string ::
  "('m, 'c, 'f, 't) env \<Rightarrow> 'm \<Rightarrow> string \<Rightarrow> (string \<Rightarrow> ('c, 'f, 't) level \<Rightarrow> ('c, 'f, 't) level) \<Rightarrow> ('c, 'f, 't) stmt" where
  "read_string env mapping key store p =
     (case get_string env mapping key of
        Inl e \<Rightarrow> (Inl e, p)
      | Inr None \<Rightarrow> (Inr (), p)
      | Inr (Some v) \<Rightarrow> (Inr (), p\<lparr>m_level := store v (m_level p)\<rparr>))"

definition read_float ::
  "('m, 'c, 'f, 't) env \<Rightarrow> 'm \<Rightarrow> string \<Rightarrow> ('f \<Rightarrow> ('c, 'f, 't) level \<Rightarrow> ('c, 'f, 't) level) \<Rightarrow> ('c, 'f, 't) stmt" where
  "read_float env mapping key store p =
     (case get_float env mapping key of
        Inl e \<Rightarrow> (Inl e, p)
      | Inr None \<Rightarrow> (Inr (), p)
      | Inr (Some v) \<Rightarrow> (Inr (), p\<lparr>m_level := store v (m_level p)\<rparr>))"

subsection \<open>\<^verbatim>\<open>LevelParser::get_level_name\<close>\<close>

text \<open>
  The body of the \<^verbatim>\<open>try\<close> block after the registration call: the name read, or the
  exception that leaves the block.
\<close>

definition get_level_name_try :: "('m, 'c, 'f, 't) env \<Rightarrow> string \<Rightarrow> exn + string" where
  "get_level_name_try env filename =
     (case ReaderDocument_from_file env filename of
        Inl e \<Rightarrow> Inl e
      | Inr doc \<Rightarrow>
          if get_root_name doc \<noteq> ''supertux-level'' then Inr []
          else (case get_string env (get_root_mapping doc) ''name'' of
                  Inl e \<Rightarrow> Inl e
                | Inr None \<Rightarrow> Inr []
                | Inr (Some name) \<Rightarrow> Inr name))"

definition get_level_name :: "('m, 'c, 'f, 't) env \<Rightarrow> string \<Rightarrow> event list \<Rightarrow> string \<times> event list" where
  "get_level_name env filename tr =
     (let tr1 = register_translation_directory filename tr in
      case get_level_name_try env filename of
        Inr name \<Rightarrow> (name, tr1)
      | Inl e \<Rightarrow>
          ([], tr1 @ [Log_warning (''Problem getting name of '' @ [CHR 0x27] @ filename @ [CHR 0x27]
                                   @ '': '' @ what e)]))"

subsection \<open>\<^verbatim>\<open>LevelParser::load\<close> and \<^verbatim>\<open>load_old_format\<close>\<close>

definition build_old_format :: "('m, 'c, 'f, 't) env \<Rightarrow> 'm \<Rightarrow> ('c, 'f, 't) stmt" where
  "build_old_format env reader p =
     (case SectorParser_from_reader_old_format env (m_level p) reader (m_editable p) of
        Inl e \<Rightarrow> (Inl e, p)
      | Inr sector \<Rightarrow> (Inr (), p\<lparr>m_level := add_sector sector (m_level p)\<rparr>))"

definition load_old_format :: "('m, 'c, 'f, 't) env \<Rightarrow> 'm \<Rightarrow> ('c, 'f, 't) stmt" where
  "load_old_format env reader =
     block [read_string env reader ''name'' (\<lambda>v l. l\<lparr>m_name := v\<rparr>),
            read_string env reader ''author'' (\<lambda>v l. l\<lparr>m_author := v\<rparr>),
            build_old_format env reader]"

text \<open>The \<^verbatim>\<open>while (iter.next())\<close> loop of \<^verbatim>\<open>load\<close> (lines 169-175), over the pairs the iterator yields.\<close>

fun load_sectors :: "('m, 'c, 'f, 't) env \<Rightarrow> (string \<times> 'm) list \<Rightarrow> ('c, 'f, 't) stmt" where
  "load_sectors env [] p = (Inr (), p)"
| "load_sectors env ((key, node) # rest) p =
     (if key = ''sector'' then
        (case SectorParser_from_reader env (m_level p) node (m_editable p) of
           Inl e \<Rightarrow> (Inl e, p)
         | Inr sector \<Rightarrow> load_sectors env rest (p\<lparr>m_level := add_sector sector (m_level p)\<rparr>))
      else load_sectors env rest p)"

definition license_warning :: "'m ReaderDocument \<Rightarrow> ('c, 'f, 't) parser \<Rightarrow> ('c, 'f, 't) parser" where
  "license_warning doc p =
     (if m_license (m_level p) = [] then
        log_warning (''['' @ get_filename doc @ ''] The level author '' @ [CHR 0x22]
                     @ m_author (m_level p) @ [CHR 0x22]
                     @ '' did not specify a license for this level '' @ [CHR 0x22]
                     @ m_name (m_level p) @ [CHR 0x22]
                     @ ''. You might not be allowed to share it.'') p
      else p)"

definition stats_init :: "('m, 'c, 'f, 't) env \<Rightarrow> ('c, 'f, 't) parser \<Rightarrow> ('c, 'f, 't) parser" where
  "stats_init env p = p\<lparr>m_level := (m_level p)\<lparr>m_stats := Statistics_init env (m_level p)\<rparr>\<rparr>"

text \<open>\<^verbatim>\<open>load(const ReaderDocument& doc)\<close>, lines 145-188.\<close>

definition load :: "('m, 'c, 'f, 't) env \<Rightarrow> 'm ReaderDocument \<Rightarrow> ('c, 'f, 't) stmt" where
  "load env doc p =
     (if get_root_name doc \<noteq> ''supertux-level''
      then (Inl (Runtime_error ''file is not a supertux-level file.''), p)
      else
        let level = get_root_mapping doc in
        case get_int env level ''version'' of
          Inl e \<Rightarrow> (Inl e, p)
        | Inr r \<Rightarrow>
            let version = (case r of None \<Rightarrow> 1 | Some v \<Rightarrow> v) in
            block
              [if version = 1 then
                 block [ok (log_info (''['' @ get_filename doc @ ''] level uses old format: version 1'')),
                        load_old_format env level]
               else if version = 2 then
                 block [read_string env level ''tileset'' (\<lambda>v l. l\<lparr>m_tileset := v\<rparr>),
                        read_string env level ''name'' (\<lambda>v l. l\<lparr>m_name := v\<rparr>),
                        read_string env level ''author'' (\<lambda>v l. l\<lparr>m_author := v\<rparr>),
                        read_string env level ''contact'' (\<lambda>v l. l\<lparr>m_contact := v\<rparr>),
                        read_string env level ''license'' (\<lambda>v l. l\<lparr>m_license := v\<rparr>),
                        read_float env level ''target-time'' (\<lambda>v l. l\<lparr>m_target_time := v\<rparr>),
                        load_sectors env (get_iter env level),
                        ok (license_warning doc)]
               else
                 ok (log_warning (''['' @ get_filename doc @ ''] level format version ''
                                  @ to_string (sint version) @ '' is not supported'')),
               ok (stats_init env)] p)"

text \<open>\<^verbatim>\<open>load(std::istream& stream, const std::string& context)\<close>, lines 123-128.\<close>

definition load_stream :: "('m, 'c, 'f, 't) env \<Rightarrow> string \<Rightarrow> string \<Rightarrow> ('c, 'f, 't) stmt" where
  "load_stream env stream context p =
     (case ReaderDocument_from_stream env stream context of
        Inl e \<Rightarrow> (Inl e, p)
      | Inr doc \<Rightarrow> load env doc p)"

text \<open>\<^verbatim>\<open>load(const std::string& filepath)\<close>, lines 130-143.\<close>

definition load_file :: "('m, 'c, 'f, 't) env \<Rightarrow> string \<Rightarrow> ('c, 'f, 't) stmt" where
  "load_file env filepath p =
     (let p1 = assign_filename filepath p;
          p2 = p1\<lparr>trace := register_translation_directory filepath (trace p1)\<rparr>
      in case (case ReaderDocument_from_file env filepath of
                 Inl e \<Rightarrow> (Inl e, p2)
               | Inr doc \<Rightarrow> load env doc p2) of
           (Inl e, p') \<Rightarrow>
             (Inl (Runtime_error (''Problem when reading level '' @ [CHR 0x27] @ filepath @ [CHR 0x27]
                                  @ '': '' @ what e)), p')
         | (Inr u, p') \<Rightarrow> (Inr u, p'))"

subsection \<open>\<^verbatim>\<open>LevelParser::create\<close>\<close>

definition create :: "('m, 'c, 'f, 't) env \<Rightarrow> string \<Rightarrow> string \<Rightarrow> bool \<Rightarrow> ('c, 'f, 't) parser \<Rightarrow> ('c, 'f, 't) parser" where
  "create env filepath levelname worldmap p =
     (let p1 = assign_filename filepath p;
          p2 = p1\<lparr>m_level := (m_level p1)\<lparr>m_name := levelname\<rparr>\<rparr>;
          p3 = p2\<lparr>m_level := (m_level p2)\<lparr>m_license := ''CC-BY-SA 4.0 International''\<rparr>\<rparr>;
          p4 = p3\<lparr>m_level := (m_level p3)\<lparr>m_tileset :=
                  (if worldmap then ''images/worldmap.strf'' else ''images/tiles.strf'')\<rparr>\<rparr>;
          sector = SectorParser_from_nothing env (m_level p4);
          sector' = set_name ''main'' sector
      in p4\<lparr>m_level := add_sector sector' (m_level p4)\<rparr>)"

subsection \<open>The static entry points\<close>

text \<open>
  Each entry point constructs a level and a parser on it, and returns the level (or the
  exception) with the trace extended by the call's effects. \<open>from_nothing\<close> and
  \<open>from_nothing_worldmap\<close> return \<open>None\<close> when the filename search never ends.
\<close>

definition from_stream ::
  "('m, 'c, 'f, 't) env \<Rightarrow> string \<Rightarrow> string \<Rightarrow> bool \<Rightarrow> event list \<Rightarrow> (exn + ('c, 'f, 't) level) \<times> event list" where
  "from_stream env stream context editable tr =
     (let parser = \<lparr>m_level = Level_new env, m_editable = editable, trace = tr\<rparr> in
      case load_stream env stream context parser of
        (Inl e, p') \<Rightarrow> (Inl e, trace p')
      | (Inr _, p') \<Rightarrow> (Inr (m_level p'), trace p'))"

definition from_file ::
  "('m, 'c, 'f, 't) env \<Rightarrow> string \<Rightarrow> bool \<Rightarrow> event list \<Rightarrow> (exn + ('c, 'f, 't) level) \<times> event list" where
  "from_file env filename editable tr =
     (let parser = \<lparr>m_level = Level_new env, m_editable = editable, trace = tr\<rparr> in
      case load_file env filename parser of
        (Inl e, p') \<Rightarrow> (Inl e, trace p')
      | (Inr _, p') \<Rightarrow> (Inr (m_level p'), trace p'))"

definition from_nothing ::
  "('m, 'c, 'f, 't) env \<Rightarrow> string \<Rightarrow> event list \<Rightarrow> (('c, 'f, 't) level \<times> event list) option" where
  "from_nothing env basedir tr =
     (let parser = \<lparr>m_level = Level_new env, m_editable = False, trace = tr\<rparr> in
      case probe (PHYSFS_exists env) (basedir @ ''/level'') ''.stl'' 0 of
        None \<Rightarrow> None
      | Some num \<Rightarrow>
          let level_name = ''Level '' @ to_string (sint num);
              level_file = ''level'' @ to_string (sint num) @ ''.stl'';
              p' = create env level_file level_name False parser
          in Some (m_level p', trace p'))"

definition from_nothing_worldmap ::
  "('m, 'c, 'f, 't) env \<Rightarrow> string \<Rightarrow> string \<Rightarrow> event list \<Rightarrow> (('c, 'f, 't) level \<times> event list) option" where
  "from_nothing_worldmap env basedir name tr =
     (let parser = \<lparr>m_level = Level_new env, m_editable = False, trace = tr\<rparr> in
      case (if PHYSFS_exists env (basedir @ ''/worldmap.stwm'')
            then (case probe (PHYSFS_exists env) (basedir @ ''/worldmap'') ''.stwm'' 0 of
                    None \<Rightarrow> None
                  | Some num \<Rightarrow> Some (''worldmap'' @ to_string (sint num) @ ''.stwm''))
            else Some ''worldmap.stwm'') of
        None \<Rightarrow> None
      | Some level_file \<Rightarrow>
          let p' = create env level_file name True parser
          in Some (m_level p', trace p'))"

subsection \<open>Reading the trace\<close>

text \<open>The values assigned to \<^verbatim>\<open>m_level.m_filename\<close>, one entry for each executed assignment.\<close>

fun filename_assignments :: "event list \<Rightarrow> string list" where
  "filename_assignments [] = []"
| "filename_assignments (Assign_filename f # tr) = f # filename_assignments tr"
| "filename_assignments (_ # tr) = filename_assignments tr"

subsection \<open>A small world to run the loader in\<close>

text \<open>
  A reader mapping is identified by a label. Three level files exist: a current-format one
  with three sectors \<open>A\<close>, \<open>B\<close>, \<open>C\<close> between other entries, a legacy one without a
  \<^verbatim>\<open>version\<close> field, and one of version 99; a fourth file is a tile set, with another root
  tag and a \<^verbatim>\<open>name\<close> of its own. A stream is looked up by its text. The statistics object
  counts the sectors; \<open>files\<close> says which paths exist.
\<close>

definition example_level :: "(unit, int, nat) level" where
  "example_level =
     \<lparr>m_filename = [], m_name = ''noname'', m_author = ''SuperTux Player'', m_contact = [],
      m_license = [], m_target_time = 0, m_tileset = ''images/tiles.strf'', m_sectors = [],
      m_stats = 0\<rparr>"

definition example_document :: "string \<Rightarrow> string \<Rightarrow> exn + string ReaderDocument" where
  "example_document path label =
     (if path = ''levels/a.stl'' then
        Inr \<lparr>get_filename = label, get_root_name = ''supertux-level'', get_root_mapping = ''v2''\<rparr>
      else if path = ''levels/old.stl'' then
        Inr \<lparr>get_filename = label, get_root_name = ''supertux-level'', get_root_mapping = ''v1''\<rparr>
      else if path = ''levels/v99.stl'' then
        Inr \<lparr>get_filename = label, get_root_name = ''supertux-level'', get_root_mapping = ''v99''\<rparr>
      else if path = ''images/tiles.strf'' then
        Inr \<lparr>get_filename = label, get_root_name = ''supertux-tiles'', get_root_mapping = ''tiles''\<rparr>
      else Inl (Std_exception ''Couldn't open file''))"

definition example_env :: "(string \<Rightarrow> bool) \<Rightarrow> (string, unit, int, nat) env" where
  "example_env files =
     \<lparr>ReaderDocument_from_file = (\<lambda>path. example_document path path),
      ReaderDocument_from_stream = (\<lambda>stream context. example_document stream context),
      get_int = (\<lambda>m key. Inr (if key = ''version'' \<and> m = ''v2'' then Some 2
                               else if key = ''version'' \<and> m = ''v99'' then Some 99 else None)),
      get_string = (\<lambda>m key. Inr (if key = ''name'' \<and> m = ''tiles'' then Some ''Snow''
                                  else if key = ''name'' then Some ''Foo''
                                  else if key = ''author'' then Some ''Bar''
                                  else if key = ''tileset'' then Some ''images/tiles.strf''
                                  else None)),
      get_float = (\<lambda>m key. Inr None),
      get_iter = (\<lambda>m. if m = ''v2''
                        then [(''name'', ''n''), (''sector'', ''A''), (''author'', ''u''),
                              (''sector'', ''B''), (''sector'', ''C'')]
                        else []),
      SectorParser_from_reader = (\<lambda>l m editable. Inr \<lparr>sector_name = m, sector_content = ()\<rparr>),
      SectorParser_from_reader_old_format =
        (\<lambda>l m editable. Inr \<lparr>sector_name = ''main'', sector_content = ()\<rparr>),
      SectorParser_from_nothing = (\<lambda>l. \<lparr>sector_name = [], sector_content = ()\<rparr>),
      PHYSFS_exists = files,
      Statistics_init = (\<lambda>l. length (m_sectors l)),
      Level_new = example_level\<rparr>"

section \<open>Properties\<close>

subsection \<open>Decimal rendering\<close>

lemma to_string_examples:
  "to_string 0 = ''0''" "to_string 7 = ''7''" "to_string 10 = ''10''" "to_string 2147483647 = ''2147483647''"
  "to_string (- 2147483648) = ''-2147483648''"
  by (simp_all add: to_string_def digits.simps digit_char_def)

lemma digits_nonempty: "digits n \<noteq> []"
  by (subst digits.simps) simp

subsection \<open>The filename search\<close>

lemma probe_reaches:
  fixes k N :: nat
  assumes "k < N"
    and "\<forall>j. k < j \<and> j < N \<longrightarrow> ex (prefix @ to_string (sint (of_nat j :: 32 word)) @ suffix)"
    and "\<not> ex (prefix @ to_string (sint (of_nat N :: 32 word)) @ suffix)"
  shows "probe ex prefix suffix (of_nat k) = Some (of_nat N)"
  using assms
proof (induction "N - k" arbitrary: k)
  case 0
  then show ?case by simp
next
  case (Suc d)
  have step: "(of_nat k :: 32 word) + 1 = of_nat (Suc k)" by simp
  show ?case
  proof (cases "Suc k = N")
    case True
    then have "(of_nat k :: 32 word) + 1 = of_nat N"
      using step by blast
    then show ?thesis using Suc.prems(3)
      by (subst probe.simps) simp
  next
    case False
    with Suc.prems(1) have lt: "Suc k < N" by simp
    with Suc.prems(2) have "ex (prefix @ to_string (sint (of_nat (Suc k) :: 32 word)) @ suffix)"
      by blast
    then have here: "ex (prefix @ to_string (sint ((of_nat k :: 32 word) + 1)) @ suffix)"
      by (simp only: step)
    have d: "d = N - Suc k" using Suc.hyps(2) by simp
    have "\<forall>j. Suc k < j \<and> j < N \<longrightarrow> ex (prefix @ to_string (sint (of_nat j :: 32 word)) @ suffix)"
      using Suc.prems(2) by auto
    then have "probe ex prefix suffix (of_nat (Suc k)) = Some (of_nat N)"
      using Suc.hyps(1)[OF d lt] Suc.prems(3) by blast
    then have "probe ex prefix suffix ((of_nat k :: 32 word) + 1) = Some (of_nat N)"
      by (simp only: step)
    with here show ?thesis
      by (subst probe.simps) simp
  qed
qed

lemma sint_of_nat32: "sint (of_nat n :: 32 word) = signed_take_bit 31 (int n)"
  by transfer simp

lemma sint_of_nat_small: "n < 2 ^ 31 \<Longrightarrow> sint (of_nat n :: 32 word) = int n"
proof -
  assume "n < 2 ^ 31"
  then have "int n < 2 ^ 31" by (metis of_nat_less_iff of_nat_numeral of_nat_power)
  then have "signed_take_bit 31 (int n) = int n"
    by (intro signed_take_bit_int_eq_self) auto
  then show ?thesis by (simp add: sint_of_nat32)
qed

lemma of_nat_sint_pos: "0 \<le> sint (w :: 32 word) \<Longrightarrow> of_nat (nat (sint w)) = w"
  by (simp add: word_of_int_nat[symmetric])

lemma nat_sint_bound: "nat (sint (w :: 32 word)) < 2 ^ 31"
  using sint_lt[of w] by simp

text \<open>
  When some positive value of \<^verbatim>\<open>num\<close> names a path that does not exist, the search from
  \<^verbatim>\<open>num = 0\<close> returns the least such value.
\<close>

lemma probe_first_free:
  fixes n0 :: "32 word"
  assumes pos: "0 < sint n0" and free: "\<not> ex (prefix @ to_string (sint n0) @ suffix)"
  shows "\<exists>n. probe ex prefix suffix 0 = Some n \<and> 0 < sint n \<and> sint n \<le> sint n0
            \<and> \<not> ex (prefix @ to_string (sint n) @ suffix)
            \<and> (\<forall>m :: 32 word. 0 < sint m \<and> sint m < sint n \<longrightarrow> ex (prefix @ to_string (sint m) @ suffix))"
proof -
  define Q where "Q k \<longleftrightarrow> 0 < k \<and> \<not> ex (prefix @ to_string (sint (of_nat k :: 32 word)) @ suffix)" for k :: nat
  define N where "N = (LEAST k. Q k)"
  have rt: "of_nat (nat (sint n0)) = n0" using pos by (simp add: of_nat_sint_pos)
  have Q0: "Q (nat (sint n0))" using pos free by (simp add: Q_def rt)
  have QN: "Q N" unfolding N_def using Q0 by (rule LeastI)
  have le: "N \<le> nat (sint n0)" unfolding N_def using Q0 by (rule Least_le)
  have small: "N < 2 ^ 31" using le nat_sint_bound[of n0] by simp
  have sN: "sint (of_nat N :: 32 word) = int N" using small by (rule sint_of_nat_small)
  have below: "\<not> Q j" if "j < N" for j using that unfolding N_def by (rule not_less_Least)
  have "probe ex prefix suffix (of_nat 0) = Some (of_nat N)"
  proof (rule probe_reaches)
    show "0 < N" using QN by (simp add: Q_def)
    show "\<forall>j. 0 < j \<and> j < N \<longrightarrow> ex (prefix @ to_string (sint (of_nat j :: 32 word)) @ suffix)"
      using below by (auto simp: Q_def)
    show "\<not> ex (prefix @ to_string (sint (of_nat N :: 32 word)) @ suffix)"
      using QN by (simp add: Q_def)
  qed
  then have r: "probe ex prefix suffix 0 = Some (of_nat N)" by simp
  have p1: "0 < sint (of_nat N :: 32 word)" using QN by (simp add: sN Q_def)
  have p2: "sint (of_nat N :: 32 word) \<le> sint n0" using le pos by (simp add: sN)
  have p3: "\<not> ex (prefix @ to_string (sint (of_nat N :: 32 word)) @ suffix)" using QN by (simp add: Q_def)
  have p4: "ex (prefix @ to_string (sint m) @ suffix)" if "0 < sint m" "sint m < sint (of_nat N :: 32 word)" for m :: "32 word"
  proof -
    have "nat (sint m) < N" using that by (simp add: sN)
    then have "\<not> Q (nat (sint m))" by (rule below)
    moreover have "of_nat (nat (sint m)) = m" using that(1) by (simp add: of_nat_sint_pos)
    ultimately show ?thesis using that(1) by (simp add: Q_def)
  qed
  have p5: "\<forall>m :: 32 word. 0 < sint m \<and> sint m < sint (of_nat N :: 32 word) \<longrightarrow> ex (prefix @ to_string (sint m) @ suffix)"
    using p4 by simp
  from r p1 p2 p3 p5 show ?thesis
    by (intro exI[where x = "of_nat N"] conjI)
qed



text \<open>
  Past the range of \<^verbatim>\<open>int\<close>: when the file of every positive suffix exists, the increment at
  \<open>2\<^sup>3\<^sup>1 - 1\<close> overflows. C++ leaves that undefined; the wrapping counter of the model goes
  on with \<open>-2147483648\<close>.
\<close>

lemma probe_wraps_past_int_max:
  assumes "\<forall>m :: 32 word. 0 < sint m \<longrightarrow> ex (prefix @ to_string (sint m) @ suffix)"
    and "\<not> ex (prefix @ ''-2147483648'' @ suffix)"
  shows "probe ex prefix suffix 0 = Some (- 2147483648)"
proof -
  have "probe ex prefix suffix (of_nat 0) = Some (of_nat (2 ^ 31))"
  proof (rule probe_reaches)
    show "(0 :: nat) < 2 ^ 31" by simp
    show "\<forall>j. 0 < j \<and> j < 2 ^ 31 \<longrightarrow> ex (prefix @ to_string (sint (of_nat j :: 32 word)) @ suffix)"
    proof (intro allI impI)
      fix j :: nat
      assume j: "0 < j \<and> j < 2 ^ 31"
      then have "sint (of_nat j :: 32 word) = int j" by (simp add: sint_of_nat_small)
      with j have "0 < sint (of_nat j :: 32 word)" by simp
      with assms(1) show "ex (prefix @ to_string (sint (of_nat j :: 32 word)) @ suffix)" by blast
    qed
    have "to_string (sint (of_nat (2 ^ 31) :: 32 word)) = ''-2147483648''"
      by (simp add: to_string_examples)
    with assms(2) show "\<not> ex (prefix @ to_string (sint (of_nat (2 ^ 31) :: 32 word)) @ suffix)"
      by simp
  qed
  then show ?thesis by simp
qed

lemma create_fields:
  "m_filename (m_level (create env filepath levelname worldmap p)) = filepath"
  "m_name (m_level (create env filepath levelname worldmap p)) = levelname"
  "m_license (m_level (create env filepath levelname worldmap p)) = ''CC-BY-SA 4.0 International''"
  "m_tileset (m_level (create env filepath levelname worldmap p))
     = (if worldmap then ''images/worldmap.strf'' else ''images/tiles.strf'')"
  "trace (create env filepath levelname worldmap p) = trace p @ [Assign_filename filepath]"
  by (simp_all add: create_def Let_def assign_filename_def add_sector_def)

lemma create_sectors:
  "\<exists>s. m_sectors (m_level (create env filepath levelname worldmap p)) = m_sectors (m_level p) @ [s]
       \<and> sector_name s = ''main''"
  by (simp add: create_def Let_def assign_filename_def add_sector_def set_name_def)



text \<open>
  Claim C6. For every base directory and every storage-existence predicate under which
  some suffix (a positive value \<open>n0\<close> of the \<^verbatim>\<open>int\<close> counter) is free, \<open>from_nothing\<close>
  returns a level, and there is a suffix \<open>n\<close> such that the full path
  \<^verbatim>\<open>basedir/level<n>.stl\<close> does not exist while the full path of every smaller suffix
  \<open>1, 2, \<dots>\<close> exists; the level's filename is the directory-less \<^verbatim>\<open>level<n>.stl\<close> and its
  name is \<^verbatim>\<open>Level <n>\<close>.
\<close>

theorem from_nothing_first_free_level:
  fixes env :: "('m, 'c, 'f, 't) env" and n0 :: "32 word"
  assumes "0 < sint n0"
    and "\<not> PHYSFS_exists env (basedir @ ''/level'' @ to_string (sint n0) @ ''.stl'')"
  shows "\<exists>(n :: 32 word) lvl tr'.
           from_nothing env basedir tr = Some (lvl, tr')
         \<and> 0 < sint n
         \<and> \<not> PHYSFS_exists env (basedir @ ''/level'' @ to_string (sint n) @ ''.stl'')
         \<and> (\<forall>m :: 32 word. 0 < sint m \<and> sint m < sint n
               \<longrightarrow> PHYSFS_exists env (basedir @ ''/level'' @ to_string (sint m) @ ''.stl''))
         \<and> m_filename lvl = ''level'' @ to_string (sint n) @ ''.stl''
         \<and> m_name lvl = ''Level '' @ to_string (sint n)"
proof -
  from assms have "\<not> PHYSFS_exists env ((basedir @ ''/level'') @ to_string (sint n0) @ ''.stl'')"
    by simp
  from probe_first_free[where ex = "PHYSFS_exists env" and prefix = "basedir @ ''/level''" and suffix = "''.stl''", OF assms(1) this]
  obtain n :: "32 word" where r: "probe (PHYSFS_exists env) (basedir @ ''/level'') ''.stl'' 0 = Some n"
    and pos: "0 < sint n"
    and free: "\<not> PHYSFS_exists env ((basedir @ ''/level'') @ to_string (sint n) @ ''.stl'')"
    and least: "\<forall>m :: 32 word. 0 < sint m \<and> sint m < sint n
                  \<longrightarrow> PHYSFS_exists env ((basedir @ ''/level'') @ to_string (sint m) @ ''.stl'')"
    by blast
  let ?p = "create env (''level'' @ to_string (sint n) @ ''.stl'') (''Level '' @ to_string (sint n)) False
              \<lparr>m_level = Level_new env, m_editable = False, trace = tr\<rparr>"
  have ret: "from_nothing env basedir tr = Some (m_level ?p, trace ?p)"
    by (simp add: from_nothing_def r Let_def)
  show ?thesis
    apply (rule exI[where x = n])
    apply (rule exI[where x = "m_level ?p"])
    apply (rule exI[where x = "trace ?p"])
    using ret pos free least by (simp add: create_fields)
qed

theorem from_nothing_first_free_level_witness:
  "\<exists>lvl tr'. from_nothing (example_env (\<lambda>p. p \<in> {''d/level1.stl'', ''d/level2.stl''})) ''d'' [] = Some (lvl, tr')
     \<and> m_filename lvl = ''level3.stl'' \<and> m_name lvl = ''Level 3''"
proof -
  let ?env = "example_env (\<lambda>p. p \<in> {''d/level1.stl'', ''d/level2.stl''})"
  have h1: "0 < sint (3 :: 32 word)" by simp
  have h2: "\<not> PHYSFS_exists ?env (''d'' @ ''/level'' @ to_string (sint (3 :: 32 word)) @ ''.stl'')"
    by (simp add: example_env_def to_string_def digits.simps digit_char_def)
  have e1: "PHYSFS_exists ?env (''d'' @ ''/level'' @ to_string 1 @ ''.stl'')"
    by (simp add: example_env_def to_string_def digits.simps digit_char_def)
  have e2: "PHYSFS_exists ?env (''d'' @ ''/level'' @ to_string 2 @ ''.stl'')"
    by (simp add: example_env_def to_string_def digits.simps digit_char_def)
  from from_nothing_first_free_level[OF h1 h2, of "[]"]
  obtain n :: "32 word" and lvl tr' where ret: "from_nothing ?env ''d'' [] = Some (lvl, tr')"
    and pos: "0 < sint n"
    and free: "\<not> PHYSFS_exists ?env (''d'' @ ''/level'' @ to_string (sint n) @ ''.stl'')"
    and least: "\<forall>m :: 32 word. 0 < sint m \<and> sint m < sint n
                  \<longrightarrow> PHYSFS_exists ?env (''d'' @ ''/level'' @ to_string (sint m) @ ''.stl'')"
    and fn: "m_filename lvl = ''level'' @ to_string (sint n) @ ''.stl''"
    and nm: "m_name lvl = ''Level '' @ to_string (sint n)"
    by blast
  have "\<not> sint (3 :: 32 word) < sint n"
  proof
    assume "sint (3 :: 32 word) < sint n"
    with least h1 have "PHYSFS_exists ?env (''d'' @ ''/level'' @ to_string (sint (3 :: 32 word)) @ ''.stl'')"
      by blast
    with h2 show False by simp
  qed
  then have le3: "sint n \<le> 3" by simp
  have n1: "sint n \<noteq> 1"
  proof
    assume "sint n = 1"
    with free e1 show False by simp
  qed
  have n2: "sint n \<noteq> 2"
  proof
    assume "sint n = 2"
    with free e2 show False by simp
  qed
  from pos le3 n1 n2 have "sint n = 3" by arith
  then have s3: "to_string (sint n) = ''3''" by (simp add: to_string_def digits.simps digit_char_def)
  from ret fn nm show ?thesis by (simp add: s3)
qed

text \<open>
  Claim C7. For every base directory and caller-supplied name, \<open>from_nothing_worldmap\<close>
  chooses the filename \<^verbatim>\<open>worldmap.stwm\<close> when \<^verbatim>\<open>basedir/worldmap.stwm\<close> does not exist.
  Otherwise, provided some suffix (a positive value of the \<^verbatim>\<open>int\<close> counter) is free, it
  chooses the directory-less \<^verbatim>\<open>worldmap<n>.stwm\<close> for the smallest \<open>n \<ge> 1\<close> whose full path
  \<^verbatim>\<open>basedir/worldmap<n>.stwm\<close> does not exist. In both cases the level's name is the
  caller's argument and exactly one sector, named \<^verbatim>\<open>main\<close>, is appended to the sectors of
  the new level.
\<close>

theorem from_nothing_worldmap_filename_choice:
  fixes env :: "('m, 'c, 'f, 't) env"
  shows
    "(\<not> PHYSFS_exists env (basedir @ ''/worldmap.stwm'') \<longrightarrow>
        (\<exists>lvl tr' s. from_nothing_worldmap env basedir name tr = Some (lvl, tr')
           \<and> m_filename lvl = ''worldmap.stwm'' \<and> m_name lvl = name
           \<and> m_sectors lvl = m_sectors (Level_new env) @ [s] \<and> sector_name s = ''main''))
     \<and> (PHYSFS_exists env (basedir @ ''/worldmap.stwm'')
          \<and> (\<exists>n0 :: 32 word. 0 < sint n0
                \<and> \<not> PHYSFS_exists env (basedir @ ''/worldmap'' @ to_string (sint n0) @ ''.stwm'')) \<longrightarrow>
        (\<exists>(n :: 32 word) lvl tr' s. from_nothing_worldmap env basedir name tr = Some (lvl, tr')
           \<and> 0 < sint n
           \<and> \<not> PHYSFS_exists env (basedir @ ''/worldmap'' @ to_string (sint n) @ ''.stwm'')
           \<and> (\<forall>m :: 32 word. 0 < sint m \<and> sint m < sint n
                 \<longrightarrow> PHYSFS_exists env (basedir @ ''/worldmap'' @ to_string (sint m) @ ''.stwm''))
           \<and> m_filename lvl = ''worldmap'' @ to_string (sint n) @ ''.stwm'' \<and> m_name lvl = name
           \<and> m_sectors lvl = m_sectors (Level_new env) @ [s] \<and> sector_name s = ''main''))"
proof (intro conjI impI)
  let ?init = "\<lparr>m_level = Level_new env, m_editable = False, trace = tr\<rparr>"
  assume absent: "\<not> PHYSFS_exists env (basedir @ ''/worldmap.stwm'')"
  let ?p = "create env ''worldmap.stwm'' name True ?init"
  have ret: "from_nothing_worldmap env basedir name tr = Some (m_level ?p, trace ?p)"
    using absent by (simp add: from_nothing_worldmap_def Let_def)
  from create_sectors[of env "''worldmap.stwm''" name True ?init]
  obtain s where s: "m_sectors (m_level ?p) = m_sectors (Level_new env) @ [s]" "sector_name s = ''main''"
    by auto
  show "\<exists>lvl tr' s. from_nothing_worldmap env basedir name tr = Some (lvl, tr')
           \<and> m_filename lvl = ''worldmap.stwm'' \<and> m_name lvl = name
           \<and> m_sectors lvl = m_sectors (Level_new env) @ [s] \<and> sector_name s = ''main''"
    apply (rule exI[where x = "m_level ?p"])
    apply (rule exI[where x = "trace ?p"])
    apply (rule exI[where x = s])
    using ret s by (simp add: create_fields)
next
  let ?init = "\<lparr>m_level = Level_new env, m_editable = False, trace = tr\<rparr>"
  assume "PHYSFS_exists env (basedir @ ''/worldmap.stwm'')
          \<and> (\<exists>n0 :: 32 word. 0 < sint n0
                \<and> \<not> PHYSFS_exists env (basedir @ ''/worldmap'' @ to_string (sint n0) @ ''.stwm''))"
  then obtain n0 :: "32 word" where present: "PHYSFS_exists env (basedir @ ''/worldmap.stwm'')"
    and pos0: "0 < sint n0"
    and "\<not> PHYSFS_exists env (basedir @ ''/worldmap'' @ to_string (sint n0) @ ''.stwm'')"
    by blast
  then have free0: "\<not> PHYSFS_exists env ((basedir @ ''/worldmap'') @ to_string (sint n0) @ ''.stwm'')"
    by simp
  from probe_first_free[where ex = "PHYSFS_exists env" and prefix = "basedir @ ''/worldmap''"
      and suffix = "''.stwm''", OF pos0 free0]
  obtain n :: "32 word" where r: "probe (PHYSFS_exists env) (basedir @ ''/worldmap'') ''.stwm'' 0 = Some n"
    and pos: "0 < sint n"
    and free: "\<not> PHYSFS_exists env ((basedir @ ''/worldmap'') @ to_string (sint n) @ ''.stwm'')"
    and least: "\<forall>m :: 32 word. 0 < sint m \<and> sint m < sint n
                  \<longrightarrow> PHYSFS_exists env ((basedir @ ''/worldmap'') @ to_string (sint m) @ ''.stwm'')"
    by blast
  let ?p = "create env (''worldmap'' @ to_string (sint n) @ ''.stwm'') name True ?init"
  have ret: "from_nothing_worldmap env basedir name tr = Some (m_level ?p, trace ?p)"
    using present by (simp add: from_nothing_worldmap_def r Let_def)
  from create_sectors[of env "''worldmap'' @ to_string (sint n) @ ''.stwm''" name True ?init]
  obtain s where s: "m_sectors (m_level ?p) = m_sectors (Level_new env) @ [s]" "sector_name s = ''main''"
    by auto
  show "\<exists>(n :: 32 word) lvl tr' s. from_nothing_worldmap env basedir name tr = Some (lvl, tr')
           \<and> 0 < sint n
           \<and> \<not> PHYSFS_exists env (basedir @ ''/worldmap'' @ to_string (sint n) @ ''.stwm'')
           \<and> (\<forall>m :: 32 word. 0 < sint m \<and> sint m < sint n
                 \<longrightarrow> PHYSFS_exists env (basedir @ ''/worldmap'' @ to_string (sint m) @ ''.stwm''))
           \<and> m_filename lvl = ''worldmap'' @ to_string (sint n) @ ''.stwm'' \<and> m_name lvl = name
           \<and> m_sectors lvl = m_sectors (Level_new env) @ [s] \<and> sector_name s = ''main''"
    apply (rule exI[where x = n])
    apply (rule exI[where x = "m_level ?p"])
    apply (rule exI[where x = "trace ?p"])
    apply (rule exI[where x = s])
    using ret pos free least s by (simp add: create_fields)
qed

theorem from_nothing_worldmap_filename_choice_witness:
  "(\<exists>lvl tr' s. from_nothing_worldmap (example_env (\<lambda>p. False)) ''d'' ''My World'' [] = Some (lvl, tr')
      \<and> m_filename lvl = ''worldmap.stwm'' \<and> m_name lvl = ''My World''
      \<and> m_sectors lvl = [s] \<and> sector_name s = ''main'')
   \<and> (\<exists>lvl tr' s. from_nothing_worldmap (example_env (\<lambda>p. p = ''d/worldmap.stwm'')) ''d'' ''My World'' [] = Some (lvl, tr')
      \<and> m_filename lvl = ''worldmap1.stwm'' \<and> m_name lvl = ''My World''
      \<and> m_sectors lvl = [s] \<and> sector_name s = ''main'')"
proof (rule conjI)
  let ?env = "example_env (\<lambda>p. False)"
  have absent: "\<not> PHYSFS_exists ?env (''d'' @ ''/worldmap.stwm'')"
    by (simp add: example_env_def)
  have new: "m_sectors (Level_new ?env) = []"
    by (simp add: example_env_def example_level_def)
  from mp[OF from_nothing_worldmap_filename_choice[of ?env "''d''" "''My World''" "[]", THEN conjunct1] absent]
  show "\<exists>lvl tr' s. from_nothing_worldmap ?env ''d'' ''My World'' [] = Some (lvl, tr')
      \<and> m_filename lvl = ''worldmap.stwm'' \<and> m_name lvl = ''My World''
      \<and> m_sectors lvl = [s] \<and> sector_name s = ''main''"
    by (simp only: new append_Nil)
next
  let ?env = "example_env (\<lambda>p. p = ''d/worldmap.stwm'')"
  have present: "PHYSFS_exists ?env (''d'' @ ''/worldmap.stwm'')"
    by (simp add: example_env_def)
  have pos1: "0 < sint (1 :: 32 word)" by simp
  have free1: "\<not> PHYSFS_exists ?env (''d'' @ ''/worldmap'' @ to_string (sint (1 :: 32 word)) @ ''.stwm'')"
    by (simp add: example_env_def to_string_def digits.simps digit_char_def)
  have new: "m_sectors (Level_new ?env) = []"
    by (simp add: example_env_def example_level_def)
  have "PHYSFS_exists ?env (''d'' @ ''/worldmap.stwm'')
          \<and> (\<exists>n0 :: 32 word. 0 < sint n0
                \<and> \<not> PHYSFS_exists ?env (''d'' @ ''/worldmap'' @ to_string (sint n0) @ ''.stwm''))"
    using present pos1 free1 by (intro conjI exI[where x = 1])
  from mp[OF from_nothing_worldmap_filename_choice[of ?env "''d''" "''My World''" "[]", THEN conjunct2] this]
  obtain n :: "32 word" and lvl tr' s
    where ret: "from_nothing_worldmap ?env ''d'' ''My World'' [] = Some (lvl, tr')"
    and pos: "0 < sint n"
    and least: "\<forall>m :: 32 word. 0 < sint m \<and> sint m < sint n
                 \<longrightarrow> PHYSFS_exists ?env (''d'' @ ''/worldmap'' @ to_string (sint m) @ ''.stwm'')"
    and fn: "m_filename lvl = ''worldmap'' @ to_string (sint n) @ ''.stwm''"
    and rest: "m_name lvl = ''My World''" "m_sectors lvl = m_sectors (Level_new ?env) @ [s]"
      "sector_name s = ''main''"
    by blast
  have "\<not> sint (1 :: 32 word) < sint n"
  proof
    assume "sint (1 :: 32 word) < sint n"
    with least pos1
    have "PHYSFS_exists ?env (''d'' @ ''/worldmap'' @ to_string (sint (1 :: 32 word)) @ ''.stwm'')"
      by blast
    with free1 show False by simp
  qed
  with pos have "sint n = 1" by simp
  then have s1: "to_string (sint n) = ''1''" by (simp add: to_string_def digits.simps digit_char_def)
  from ret fn rest
  show "\<exists>lvl tr' s. from_nothing_worldmap ?env ''d'' ''My World'' [] = Some (lvl, tr')
      \<and> m_filename lvl = ''worldmap1.stwm'' \<and> m_name lvl = ''My World''
      \<and> m_sectors lvl = [s] \<and> sector_name s = ''main''"
    by (simp add: s1 new)
qed

subsection \<open>What a load leaves alone\<close>

lemma filename_assignments_append:
  "filename_assignments (xs @ ys) = filename_assignments xs @ filename_assignments ys"
  by (induction xs rule: filename_assignments.induct) simp_all

lemma block_keeps:
  assumes "\<And>c q. c \<in> set cs \<Longrightarrow> obs (snd (c q)) = obs q"
  shows "obs (snd (block cs p)) = obs p"
  using assms
proof (induction cs arbitrary: p)
  case Nil
  show ?case by (simp add: block.simps)
next
  case (Cons c cs)
  obtain r p1 where c: "c p = (r, p1)" by (cases "c p")
  have one: "obs p1 = obs p" using Cons.prems[of c p] c by simp
  show ?case
  proof (cases r)
    case (Inl e)
    with c one show ?thesis by (simp add: block.simps)
  next
    case (Inr u)
    have "obs (snd (block cs p1)) = obs p1"
      by (rule Cons.IH) (simp add: Cons.prems)
    with c Inr one show ?thesis by (simp add: block.simps)
  qed
qed

lemma read_string_keeps:
  assumes "\<And>v q. obs (q\<lparr>m_level := store v (m_level q)\<rparr>) = obs q"
  shows "obs (snd (read_string env mapping key store p)) = obs p"
  using assms by (simp add: read_string_def split: sum.splits option.splits)

lemma read_float_keeps:
  assumes "\<And>v q. obs (q\<lparr>m_level := store v (m_level q)\<rparr>) = obs q"
  shows "obs (snd (read_float env mapping key store p)) = obs p"
  using assms by (simp add: read_float_def split: sum.splits option.splits)

lemma load_sectors_keeps:
  assumes "\<And>s q. obs (q\<lparr>m_level := add_sector s (m_level q)\<rparr>) = obs q"
  shows "obs (snd (load_sectors env kids p)) = obs p"
  using assms
proof (induction kids arbitrary: p)
  case Nil
  show ?case by simp
next
  case (Cons kid kids)
  obtain key node where kid: "kid = (key, node)" by (cases kid)
  show ?case
  proof (cases "key = ''sector''")
    case False
    then show ?thesis using Cons kid by simp
  next
    case True
    show ?thesis
    proof (cases "SectorParser_from_reader env (m_level p) node (m_editable p)")
      case (Inl e)
      with True kid show ?thesis by simp
    next
      case (Inr s)
      have "obs (snd (load_sectors env kids (p\<lparr>m_level := add_sector s (m_level p)\<rparr>)))
              = obs (p\<lparr>m_level := add_sector s (m_level p)\<rparr>)"
        by (rule Cons.IH) (rule Cons.prems)
      with True kid Inr Cons.prems show ?thesis by simp
    qed
  qed
qed

lemma build_old_format_keeps:
  assumes "\<And>s q. obs (q\<lparr>m_level := add_sector s (m_level q)\<rparr>) = obs q"
  shows "obs (snd (build_old_format env reader p)) = obs p"
  using assms by (simp add: build_old_format_def split: sum.splits)

text \<open>
  \<^verbatim>\<open>load(doc)\<close> never writes \<^verbatim>\<open>m_filename\<close> and leaves \<^verbatim>\<open>m_editable\<close> alone, whether it
  returns or throws.
\<close>

lemma load_keeps_filename:
  fixes p :: "('c, 'f, 't) parser"
  defines "obs \<equiv> \<lambda>q :: ('c, 'f, 't) parser. (m_filename (m_level q), filename_assignments (trace q), m_editable q)"
  shows "obs (snd (load env doc p)) = obs p"
proof (cases "get_root_name doc = ''supertux-level''")
  case False
  then show ?thesis by (simp add: load_def)
next
  case True
  show ?thesis
  proof (cases "get_int env (get_root_mapping doc) ''version''")
    case (Inl e)
    with True show ?thesis by (simp add: load_def)
  next
    case (Inr r)
    have add: "obs (q\<lparr>m_level := add_sector s (m_level q)\<rparr>) = obs q" for s q
      by (simp add: obs_def add_sector_def)
    have old: "obs (snd (load_old_format env m q)) = obs q" for m q
      unfolding load_old_format_def
      by (rule block_keeps)
         (auto simp: obs_def add_sector_def intro!: read_string_keeps build_old_format_keeps)
    have v1: "obs (snd (block [ok (log_info msg), load_old_format env m] q)) = obs q" for msg m q
      by (rule block_keeps)
         (auto simp: old, simp add: obs_def ok_def log_info_def filename_assignments_append)
    have v2: "obs (snd (block [read_string env m ''tileset'' (\<lambda>v l. l\<lparr>m_tileset := v\<rparr>),
                        read_string env m ''name'' (\<lambda>v l. l\<lparr>m_name := v\<rparr>),
                        read_string env m ''author'' (\<lambda>v l. l\<lparr>m_author := v\<rparr>),
                        read_string env m ''contact'' (\<lambda>v l. l\<lparr>m_contact := v\<rparr>),
                        read_string env m ''license'' (\<lambda>v l. l\<lparr>m_license := v\<rparr>),
                        read_float env m ''target-time'' (\<lambda>v l. l\<lparr>m_target_time := v\<rparr>),
                        load_sectors env kids,
                        ok (license_warning doc)] q)) = obs q" for m kids q
    proof (rule block_keeps)
      fix c :: "('c, 'f, 't) stmt" and q' :: "('c, 'f, 't) parser"
      assume "c \<in> set [read_string env m ''tileset'' (\<lambda>v l. l\<lparr>m_tileset := v\<rparr>),
                        read_string env m ''name'' (\<lambda>v l. l\<lparr>m_name := v\<rparr>),
                        read_string env m ''author'' (\<lambda>v l. l\<lparr>m_author := v\<rparr>),
                        read_string env m ''contact'' (\<lambda>v l. l\<lparr>m_contact := v\<rparr>),
                        read_string env m ''license'' (\<lambda>v l. l\<lparr>m_license := v\<rparr>),
                        read_float env m ''target-time'' (\<lambda>v l. l\<lparr>m_target_time := v\<rparr>),
                        load_sectors env kids,
                        ok (license_warning doc)]"
      then consider "c = read_string env m ''tileset'' (\<lambda>v l. l\<lparr>m_tileset := v\<rparr>)"
        | "c = read_string env m ''name'' (\<lambda>v l. l\<lparr>m_name := v\<rparr>)"
        | "c = read_string env m ''author'' (\<lambda>v l. l\<lparr>m_author := v\<rparr>)"
        | "c = read_string env m ''contact'' (\<lambda>v l. l\<lparr>m_contact := v\<rparr>)"
        | "c = read_string env m ''license'' (\<lambda>v l. l\<lparr>m_license := v\<rparr>)"
        | "c = read_float env m ''target-time'' (\<lambda>v l. l\<lparr>m_target_time := v\<rparr>)"
        | "c = load_sectors env kids"
        | "c = ok (license_warning doc)"
        by auto
      then show "obs (snd (c q')) = obs q'"
      proof cases
        case 7
        then show ?thesis by (simp add: load_sectors_keeps[where obs = obs, OF add])
      next
        case 8
        then show ?thesis
          by (simp add: obs_def ok_def license_warning_def log_warning_def filename_assignments_append)
      qed (simp, rule read_string_keeps[where obs = obs] read_float_keeps[where obs = obs], simp add: obs_def)+
    qed
    have warn: "obs (snd (ok (log_warning msg) q)) = obs q" for msg q
      by (simp add: obs_def ok_def log_warning_def filename_assignments_append)
    have stats: "obs (snd (ok (stats_init env) q)) = obs q" for q
      by (simp add: obs_def ok_def stats_init_def)
    show ?thesis
      using True Inr
      apply (simp add: load_def Let_def split del: if_split)
      apply (rule block_keeps)
      apply (auto simp: v1 v2 warn stats)
      done
  qed
qed

subsection \<open>Root tag and version dispatch\<close>

text \<open>
  Claim C4. For every input whose root tag is not \<^verbatim>\<open>supertux-level\<close> (a document \<open>doc\<close> the
  reader delivers for the file or the stream), \<open>get_level_name\<close> returns the empty string
  without raising and without logging, while the full loader raises the fatal error
  \<^verbatim>\<open>file is not a supertux-level file.\<close> to its caller: \<open>from_stream\<close> raises it as it
  is, \<open>from_file\<close> raises it inside the message that names the file.
\<close>

theorem root_tag_mismatch:
  fixes env :: "('m, 'c, 'f, 't) env"
  assumes "get_root_name doc \<noteq> ''supertux-level''"
  shows
    "(ReaderDocument_from_file env filename = Inr doc \<longrightarrow>
        get_level_name env filename tr = ([], tr @ [Register_translation_directory filename])
      \<and> from_file env filename editable tr =
          (Inl (Runtime_error (''Problem when reading level '' @ [CHR 0x27] @ filename @ [CHR 0x27]
                               @ '': '' @ ''file is not a supertux-level file.'')),
           tr @ [Assign_filename filename, Register_translation_directory filename]))
     \<and> (ReaderDocument_from_stream env stream context = Inr doc \<longrightarrow>
        from_stream env stream context editable tr =
          (Inl (Runtime_error ''file is not a supertux-level file.''), tr))"
  using assms
  by (simp add: get_level_name_def get_level_name_try_def register_translation_directory_def
      from_file_def load_file_def assign_filename_def load_def from_stream_def load_stream_def)

theorem root_tag_mismatch_witness:
  "get_level_name (example_env (\<lambda>p. False)) ''images/tiles.strf'' []
     = ([], [Register_translation_directory ''images/tiles.strf''])
   \<and> from_file (example_env (\<lambda>p. False)) ''images/tiles.strf'' False []
     = (Inl (Runtime_error ''Problem when reading level 'images/tiles.strf': file is not a supertux-level file.''),
        [Assign_filename ''images/tiles.strf'', Register_translation_directory ''images/tiles.strf''])
   \<and> from_stream (example_env (\<lambda>p. False)) ''images/tiles.strf'' ''fixture'' False []
     = (Inl (Runtime_error ''file is not a supertux-level file.''), [])"
proof -
  let ?env = "example_env (\<lambda>p. False)"
  let ?doc = "\<lparr>get_filename = ''images/tiles.strf'', get_root_name = ''supertux-tiles'',
               get_root_mapping = ''tiles''\<rparr>"
  let ?sdoc = "\<lparr>get_filename = ''fixture'', get_root_name = ''supertux-tiles'',
               get_root_mapping = ''tiles''\<rparr>"
  have f: "ReaderDocument_from_file ?env ''images/tiles.strf'' = Inr ?doc"
    by (simp add: example_env_def example_document_def)
  have s: "ReaderDocument_from_stream ?env ''images/tiles.strf'' ''fixture'' = Inr ?sdoc"
    by (simp add: example_env_def example_document_def)
  have t: "get_root_name ?doc \<noteq> ''supertux-level''" "get_root_name ?sdoc \<noteq> ''supertux-level''"
    by simp_all
  from mp[OF root_tag_mismatch[OF t(1), of ?env "''images/tiles.strf''" "[]" False, THEN conjunct1] f]
    mp[OF root_tag_mismatch[OF t(2), of ?env _ _ _ "''images/tiles.strf''" "''fixture''", THEN conjunct2] s]
  show ?thesis by simp
qed

text \<open>
  Claim C3. For every document with a valid root tag and a \<^verbatim>\<open>version\<close> value other than 1
  and 2, loading does not raise. The state after \<^verbatim>\<open>load(doc)\<close> is the state before it with
  one warning logged and \<^verbatim>\<open>m_stats\<close> initialised from the level: nothing else of the
  level changes. So \<open>from_file\<close> and \<open>from_stream\<close> return the freshly constructed level
  with its own sectors (none, when a fresh level has none), its statistics initialised, and
  \<open>from_file\<close> its filename set. No sector parsing is attempted: the load is the same
  whatever the two entry points of the sector builder are.
\<close>

theorem unsupported_version_loads_defaults:
  fixes env :: "('m, 'c, 'f, 't) env" and p :: "('c, 'f, 't) parser"
  assumes "get_root_name doc = ''supertux-level''"
    and "get_int env (get_root_mapping doc) ''version'' = Inr (Some version)"
    and "version \<noteq> 1" and "version \<noteq> 2"
  shows
    "load env doc p =
       (Inr (), p\<lparr>m_level := (m_level p)\<lparr>m_stats := Statistics_init env (m_level p)\<rparr>,
                 trace := trace p @ [Log_warning (''['' @ get_filename doc @ ''] level format version ''
                                                 @ to_string (sint version) @ '' is not supported'')]\<rparr>)
     \<and> (ReaderDocument_from_file env filename = Inr doc \<longrightarrow>
          (\<exists>lvl. from_file env filename editable tr =
             (Inr lvl, tr @ [Assign_filename filename, Register_translation_directory filename,
                            Log_warning (''['' @ get_filename doc @ ''] level format version ''
                                         @ to_string (sint version) @ '' is not supported'')])
           \<and> lvl = (Level_new env)\<lparr>m_filename := filename,
                       m_stats := Statistics_init env ((Level_new env)\<lparr>m_filename := filename\<rparr>)\<rparr>
           \<and> m_sectors lvl = m_sectors (Level_new env)
           \<and> (m_sectors (Level_new env) = [] \<longrightarrow> m_sectors lvl = [])))
     \<and> (ReaderDocument_from_stream env stream context = Inr doc \<longrightarrow>
          (\<exists>lvl. from_stream env stream context editable tr =
             (Inr lvl, tr @ [Log_warning (''['' @ get_filename doc @ ''] level format version ''
                                         @ to_string (sint version) @ '' is not supported'')])
           \<and> lvl = (Level_new env)\<lparr>m_stats := Statistics_init env (Level_new env)\<rparr>
           \<and> m_sectors lvl = m_sectors (Level_new env)
           \<and> (m_sectors (Level_new env) = [] \<longrightarrow> m_sectors lvl = [])))
     \<and> (\<forall>current legacy.
          load (env\<lparr>SectorParser_from_reader := current,
                    SectorParser_from_reader_old_format := legacy\<rparr>) doc p = load env doc p)"
proof -
  have l: "load e doc q =
       (Inr (), q\<lparr>m_level := (m_level q)\<lparr>m_stats := Statistics_init e (m_level q)\<rparr>,
                 trace := trace q @ [Log_warning (''['' @ get_filename doc @ ''] level format version ''
                                                 @ to_string (sint version) @ '' is not supported'')]\<rparr>)"
    if "get_int e (get_root_mapping doc) ''version'' = Inr (Some version)"
    for q :: "('c, 'f, 't) parser" and e :: "('m, 'c, 'f, 't) env"
    using assms(1,3,4) that by (simp add: load_def block.simps ok_def log_warning_def stats_init_def)
  have "load (env\<lparr>SectorParser_from_reader := current,
                  SectorParser_from_reader_old_format := legacy\<rparr>) doc p = load env doc p"
    for current legacy
    using assms(2) by (simp add: l)
  then show ?thesis
    using assms(2)
    by (simp add: l from_file_def load_file_def assign_filename_def register_translation_directory_def
        from_stream_def load_stream_def)
qed

theorem unsupported_version_loads_defaults_witness:
  "from_file (example_env (\<lambda>p. False)) ''levels/v99.stl'' False []
     = (Inr (example_level\<lparr>m_filename := ''levels/v99.stl''\<rparr>),
        [Assign_filename ''levels/v99.stl'', Register_translation_directory ''levels/v99.stl'',
         Log_warning ''[levels/v99.stl] level format version 99 is not supported''])
   \<and> m_sectors (example_level\<lparr>m_filename := ''levels/v99.stl''\<rparr>) = []"
proof -
  let ?env = "example_env (\<lambda>p. False)"
  let ?doc = "\<lparr>get_filename = ''levels/v99.stl'', get_root_name = ''supertux-level'',
               get_root_mapping = ''v99''\<rparr>"
  have f: "ReaderDocument_from_file ?env ''levels/v99.stl'' = Inr ?doc"
    by (simp add: example_env_def example_document_def)
  have a: "get_root_name ?doc = ''supertux-level''" by simp
  have b: "get_int ?env (get_root_mapping ?doc) ''version'' = Inr (Some 99)"
    by (simp add: example_env_def)
  have c: "(99 :: 32 word) \<noteq> 1" "(99 :: 32 word) \<noteq> 2" by simp_all
  have s: "to_string 99 = ''99''"
    by (simp add: to_string_def digits.simps digit_char_def)
  have n: "Level_new ?env = example_level" "Statistics_init ?env l = length (m_sectors l)" for l
    by (simp_all add: example_env_def)
  from mp[OF unsupported_version_loads_defaults[OF a b c, of "\<lparr>m_level = example_level, m_editable = False, trace = []\<rparr>"
        "''levels/v99.stl''" False "[]", THEN conjunct2, THEN conjunct1] f]
  show ?thesis by (simp add: s n example_level_def)
qed

subsection \<open>\<^verbatim>\<open>get_level_name\<close>\<close>

text \<open>
  Claim C5, as amended. For every path argument \<open>get_level_name\<close> returns a string and
  never raises. If a parsing step throws (the reader opening the file, or the read of
  \<^verbatim>\<open>name\<close>), the exception is caught, a warning naming the path and the exception's text is
  logged, and the empty string is returned. If no step throws and the root tag is
  \<^verbatim>\<open>supertux-level\<close>, it returns the root mapping's \<^verbatim>\<open>name\<close> field, the empty string when
  the field is absent. If no step throws and the root tag is anything else, it returns the
  empty string and logs no warning.
\<close>

theorem get_level_name_outcomes:
  fixes env :: "('m, 'c, 'f, 't) env"
  shows
    "(\<forall>e. ReaderDocument_from_file env filename = Inl e \<longrightarrow>
        get_level_name env filename tr =
          ([], tr @ [Register_translation_directory filename,
                     Log_warning (''Problem getting name of '' @ [CHR 0x27] @ filename @ [CHR 0x27]
                                  @ '': '' @ what e)]))
     \<and> (\<forall>doc e. ReaderDocument_from_file env filename = Inr doc
          \<and> get_root_name doc = ''supertux-level''
          \<and> get_string env (get_root_mapping doc) ''name'' = Inl e \<longrightarrow>
        get_level_name env filename tr =
          ([], tr @ [Register_translation_directory filename,
                     Log_warning (''Problem getting name of '' @ [CHR 0x27] @ filename @ [CHR 0x27]
                                  @ '': '' @ what e)]))
     \<and> (\<forall>doc name. ReaderDocument_from_file env filename = Inr doc
          \<and> get_root_name doc = ''supertux-level''
          \<and> get_string env (get_root_mapping doc) ''name'' = Inr (Some name) \<longrightarrow>
        get_level_name env filename tr = (name, tr @ [Register_translation_directory filename]))
     \<and> (\<forall>doc. ReaderDocument_from_file env filename = Inr doc
          \<and> get_root_name doc = ''supertux-level''
          \<and> get_string env (get_root_mapping doc) ''name'' = Inr None \<longrightarrow>
        get_level_name env filename tr = ([], tr @ [Register_translation_directory filename]))
     \<and> (\<forall>doc. ReaderDocument_from_file env filename = Inr doc
          \<and> get_root_name doc \<noteq> ''supertux-level'' \<longrightarrow>
        get_level_name env filename tr = ([], tr @ [Register_translation_directory filename]))"
  by (simp add: get_level_name_def get_level_name_try_def register_translation_directory_def)

theorem get_level_name_outcomes_witness:
  "get_level_name (example_env (\<lambda>p. False)) ''levels/a.stl'' []
     = (''Foo'', [Register_translation_directory ''levels/a.stl''])
   \<and> get_level_name (example_env (\<lambda>p. False)) ''nowhere.stl'' []
     = ([], [Register_translation_directory ''nowhere.stl'',
             Log_warning ''Problem getting name of 'nowhere.stl': Couldn't open file''])"
proof -
  let ?env = "example_env (\<lambda>p. False)"
  let ?doc = "\<lparr>get_filename = ''levels/a.stl'', get_root_name = ''supertux-level'',
               get_root_mapping = ''v2''\<rparr>"
  have f: "ReaderDocument_from_file ?env ''levels/a.stl'' = Inr ?doc
           \<and> get_root_name ?doc = ''supertux-level''
           \<and> get_string ?env (get_root_mapping ?doc) ''name'' = Inr (Some ''Foo'')"
    by (simp add: example_env_def example_document_def)
  have g: "ReaderDocument_from_file ?env ''nowhere.stl'' = Inl (Std_exception ''Couldn't open file'')"
    by (simp add: example_env_def example_document_def)
  note t = get_level_name_outcomes[of ?env "''levels/a.stl''" "[]"]
  note u = get_level_name_outcomes[of ?env "''nowhere.stl''" "[]"]
  from t[THEN conjunct2, THEN conjunct2, THEN conjunct1, rule_format, OF f]
    u[THEN conjunct1, rule_format, OF g]
  show ?thesis by simp
qed

text \<open>
  The claim as it was stated fails on a file the reader opens whose root tag is another
  one: here a tile set named \<^verbatim>\<open>Snow\<close>. No parsing step fails and no warning is logged, yet
  the result is the empty string, not the root mapping's \<^verbatim>\<open>name\<close> field.
\<close>

theorem get_level_name_foreign_root:
  "ReaderDocument_from_file (example_env (\<lambda>p. False)) ''images/tiles.strf''
     = Inr \<lparr>get_filename = ''images/tiles.strf'', get_root_name = ''supertux-tiles'',
            get_root_mapping = ''tiles''\<rparr>
   \<and> get_string (example_env (\<lambda>p. False)) ''tiles'' ''name'' = Inr (Some ''Snow'')
   \<and> get_level_name (example_env (\<lambda>p. False)) ''images/tiles.strf'' []
     = ([], [Register_translation_directory ''images/tiles.strf''])"
  by (simp add: example_env_def example_document_def get_level_name_def get_level_name_try_def
      register_translation_directory_def)

subsection \<open>Loading from a file path\<close>

lemma load_file_reader_throws:
  assumes "ReaderDocument_from_file env filepath = Inl e"
  shows "load_file env filepath q =
     (Inl (Runtime_error (''Problem when reading level '' @ [CHR 0x27] @ filepath @ [CHR 0x27]
                          @ '': '' @ what e)),
      q\<lparr>m_level := (m_level q)\<lparr>m_filename := filepath\<rparr>,
        trace := trace q @ [Assign_filename filepath, Register_translation_directory filepath]\<rparr>)"
  using assms
  by (simp add: load_file_def Let_def assign_filename_def register_translation_directory_def)

lemma load_file_reader_returns:
  assumes "ReaderDocument_from_file env filepath = Inr doc"
  shows "load_file env filepath q =
     (case load env doc (q\<lparr>m_level := (m_level q)\<lparr>m_filename := filepath\<rparr>,
              trace := trace q @ [Assign_filename filepath, Register_translation_directory filepath]\<rparr>) of
        (Inl e, p') \<Rightarrow>
          (Inl (Runtime_error (''Problem when reading level '' @ [CHR 0x27] @ filepath @ [CHR 0x27]
                               @ '': '' @ what e)), p')
      | (Inr u, p') \<Rightarrow> (Inr u, p'))"
  using assms
  by (simp add: load_file_def Let_def assign_filename_def register_translation_directory_def)

text \<open>
  Claim C8. For every file path, \<^verbatim>\<open>load(filepath)\<close> sets the level's filename to the path
  before parsing begins: the reader's document is parsed in the state \<open>start\<close>, in which the
  filename is already the path, and the filename is the path when the call ends, however it
  ends. If the document reader or the subsequent parse throws \<open>e\<close>, the call throws a new
  \<^verbatim>\<open>std::runtime_error\<close> whose message names the file path and the text of \<open>e\<close>, and every
  exception \<open>from_file\<close> passes to its caller is such a wrapped one.
\<close>

theorem load_file_sets_filename_and_wraps:
  fixes env :: "('m, 'c, 'f, 't) env" and p :: "('c, 'f, 't) parser"
  shows
    "(let start = p\<lparr>m_level := (m_level p)\<lparr>m_filename := filepath\<rparr>,
                    trace := trace p @ [Assign_filename filepath, Register_translation_directory filepath]\<rparr>;
          wrap = (\<lambda>e. Runtime_error (''Problem when reading level '' @ [CHR 0x27] @ filepath @ [CHR 0x27]
                                      @ '': '' @ what e))
      in m_filename (m_level start) = filepath
       \<and> m_filename (m_level (snd (load_file env filepath p))) = filepath
       \<and> (\<forall>e. ReaderDocument_from_file env filepath = Inl e \<longrightarrow>
             load_file env filepath p = (Inl (wrap e), start))
       \<and> (\<forall>doc e p'. ReaderDocument_from_file env filepath = Inr doc \<and> load env doc start = (Inl e, p') \<longrightarrow>
             load_file env filepath p = (Inl (wrap e), p'))
       \<and> (\<forall>doc p'. ReaderDocument_from_file env filepath = Inr doc \<and> load env doc start = (Inr (), p') \<longrightarrow>
             load_file env filepath p = (Inr (), p'))
       \<and> (\<forall>e tr'. from_file env filepath editable tr = (Inl e, tr') \<longrightarrow> (\<exists>e0. e = wrap e0)))"
proof -
  define start where "start = p\<lparr>m_level := (m_level p)\<lparr>m_filename := filepath\<rparr>,
                    trace := trace p @ [Assign_filename filepath, Register_translation_directory filepath]\<rparr>"
  define wrap where "wrap = (\<lambda>e. Runtime_error (''Problem when reading level '' @ [CHR 0x27] @ filepath @ [CHR 0x27]
                                      @ '': '' @ what e))"
  have c0: "m_filename (m_level start) = filepath" by (simp add: start_def)
  have kept: "m_filename (m_level (snd (load env doc start))) = filepath" for doc
    using load_keeps_filename[of env doc start] c0 by simp
  have c1: "m_filename (m_level (snd (load_file env filepath p))) = filepath"
  proof (cases "ReaderDocument_from_file env filepath")
    case (Inl e)
    then show ?thesis using c0 by (simp add: load_file_reader_throws start_def)
  next
    case (Inr doc)
    obtain r p' where l: "load env doc start = (r, p')" by (cases "load env doc start")
    with kept[of doc] have "m_filename (m_level p') = filepath" by simp
    with Inr l show ?thesis
      by (cases r) (simp_all add: load_file_reader_returns[OF Inr] start_def[symmetric])
  qed
  have c2: "\<forall>e. ReaderDocument_from_file env filepath = Inl e \<longrightarrow>
             load_file env filepath p = (Inl (wrap e), start)"
    by (simp add: load_file_reader_throws start_def wrap_def)
  have c3: "\<forall>doc e p'. ReaderDocument_from_file env filepath = Inr doc \<and> load env doc start = (Inl e, p') \<longrightarrow>
             load_file env filepath p = (Inl (wrap e), p')"
    by (simp add: load_file_reader_returns start_def[symmetric] wrap_def)
  have c4: "\<forall>doc p'. ReaderDocument_from_file env filepath = Inr doc \<and> load env doc start = (Inr (), p') \<longrightarrow>
             load_file env filepath p = (Inr (), p')"
    by (simp add: load_file_reader_returns start_def[symmetric])
  have c5: "\<forall>e tr'. from_file env filepath editable tr = (Inl e, tr') \<longrightarrow> (\<exists>e0. e = wrap e0)"
  proof (cases "ReaderDocument_from_file env filepath")
    case (Inl e)
    then show ?thesis
      by (auto simp: from_file_def load_file_reader_throws wrap_def)
  next
    case (Inr doc)
    then show ?thesis
      by (auto simp: from_file_def load_file_reader_returns[OF Inr] wrap_def split: prod.splits sum.splits)
  qed
  from c0 c1 c2 c3 c4 c5 show ?thesis
    unfolding Let_def start_def wrap_def by (intro conjI)
qed

theorem load_file_sets_filename_and_wraps_witness:
  "load_file (example_env (\<lambda>p. False)) ''nowhere.stl'' \<lparr>m_level = example_level, m_editable = False, trace = []\<rparr>
     = (Inl (Runtime_error ''Problem when reading level 'nowhere.stl': Couldn't open file''),
        \<lparr>m_level = example_level\<lparr>m_filename := ''nowhere.stl''\<rparr>, m_editable = False,
         trace = [Assign_filename ''nowhere.stl'', Register_translation_directory ''nowhere.stl'']\<rparr>)
   \<and> m_filename (m_level (snd (load_file (example_env (\<lambda>p. False)) ''levels/a.stl''
        \<lparr>m_level = example_level, m_editable = False, trace = []\<rparr>))) = ''levels/a.stl''"
proof -
  let ?env = "example_env (\<lambda>p. False)"
  let ?p = "\<lparr>m_level = example_level, m_editable = False, trace = []\<rparr>"
  have g: "ReaderDocument_from_file ?env ''nowhere.stl'' = Inl (Std_exception ''Couldn't open file'')"
    by (simp add: example_env_def example_document_def)
  note t = load_file_sets_filename_and_wraps[where filepath = "''nowhere.stl''" and p = ?p and env = ?env
      and editable = False and tr = "[]", unfolded Let_def]
  note u = load_file_sets_filename_and_wraps[where filepath = "''levels/a.stl''" and p = ?p and env = ?env
      and editable = False and tr = "[]", unfolded Let_def]
  from t[THEN conjunct2, THEN conjunct2, THEN conjunct1, rule_format, OF g]
    u[THEN conjunct2, THEN conjunct1]
  show ?thesis by simp
qed

subsection \<open>Assignments to the filename\<close>

text \<open>
  Claim C9, as amended. For every successful call through \<open>from_file\<close>, \<open>from_nothing\<close> or
  \<open>from_nothing_worldmap\<close>, the level's filename field is assigned exactly once during the
  call, and the value assigned is the filename of the level returned: nothing changes it
  afterwards. A successful call through \<open>from_stream\<close> never assigns the field: the level
  returned has the filename of a freshly constructed level.
\<close>

theorem filename_assigned_once:
  fixes env :: "('m, 'c, 'f, 't) env"
  shows
    "(\<forall>lvl tr'. from_file env filename editable tr = (Inr lvl, tr') \<longrightarrow>
        filename_assignments tr' = filename_assignments tr @ [filename] \<and> m_filename lvl = filename)
     \<and> (\<forall>lvl tr'. from_nothing env basedir tr = Some (lvl, tr') \<longrightarrow>
        (\<exists>f. filename_assignments tr' = filename_assignments tr @ [f] \<and> m_filename lvl = f))
     \<and> (\<forall>lvl tr'. from_nothing_worldmap env basedir name tr = Some (lvl, tr') \<longrightarrow>
        (\<exists>f. filename_assignments tr' = filename_assignments tr @ [f] \<and> m_filename lvl = f))
     \<and> (\<forall>lvl tr'. from_stream env stream label editable tr = (Inr lvl, tr') \<longrightarrow>
        filename_assignments tr' = filename_assignments tr \<and> m_filename lvl = m_filename (Level_new env))"
proof (intro conjI allI impI)
  fix lvl tr'
  assume ret: "from_file env filename editable tr = (Inr lvl, tr')"
  let ?start = "\<lparr>m_level = (Level_new env)\<lparr>m_filename := filename\<rparr>, m_editable = editable,
                 trace = tr @ [Assign_filename filename, Register_translation_directory filename]\<rparr>"
  from ret obtain doc where doc: "ReaderDocument_from_file env filename = Inr doc"
    by (cases "ReaderDocument_from_file env filename") (auto simp: from_file_def load_file_reader_throws)
  from ret obtain p' where l: "load env doc ?start = (Inr (), p')" and res: "lvl = m_level p'" "tr' = trace p'"
    by (auto simp: from_file_def load_file_reader_returns[OF doc] split: prod.splits sum.splits)
  from load_keeps_filename[of env doc ?start] l
  have "m_filename (m_level p') = filename"
    and "filename_assignments (trace p') = filename_assignments tr @ [filename]"
    by (simp_all add: filename_assignments_append)
  with res show "filename_assignments tr' = filename_assignments tr @ [filename]"
    and "m_filename lvl = filename" by simp_all
next
  fix lvl tr'
  assume "from_nothing env basedir tr = Some (lvl, tr')"
  then show "\<exists>f. filename_assignments tr' = filename_assignments tr @ [f] \<and> m_filename lvl = f"
    by (auto simp: from_nothing_def Let_def create_fields filename_assignments_append
        split: option.splits)
next
  fix lvl tr'
  assume "from_nothing_worldmap env basedir name tr = Some (lvl, tr')"
  then show "\<exists>f. filename_assignments tr' = filename_assignments tr @ [f] \<and> m_filename lvl = f"
    by (auto simp: from_nothing_worldmap_def Let_def create_fields filename_assignments_append
        split: option.splits if_splits)
next
  fix lvl tr'
  assume ret: "from_stream env stream label editable tr = (Inr lvl, tr')"
  let ?start = "\<lparr>m_level = Level_new env, m_editable = editable, trace = tr\<rparr>"
  from ret obtain doc p' where l: "load env doc ?start = (Inr (), p')"
    and res: "lvl = m_level p'" "tr' = trace p'"
    by (auto simp: from_stream_def Let_def load_stream_def split: prod.splits sum.splits)
  from load_keeps_filename[of env doc ?start] l
  have "m_filename (m_level p') = m_filename (Level_new env)"
    and "filename_assignments (trace p') = filename_assignments tr"
    by simp_all
  with res show "filename_assignments tr' = filename_assignments tr"
    and "m_filename lvl = m_filename (Level_new env)" by simp_all
qed

theorem filename_assigned_once_witness:
  "(\<exists>lvl tr'. from_nothing (example_env (\<lambda>p. False)) ''d'' [] = Some (lvl, tr')
      \<and> filename_assignments tr' = [m_filename lvl] \<and> m_filename lvl = ''level1.stl'')
   \<and> (\<exists>lvl tr'. from_stream (example_env (\<lambda>p. False)) ''levels/v99.stl'' ''fixture'' False [] = (Inr lvl, tr')
      \<and> filename_assignments tr' = [] \<and> m_filename lvl = [])"
proof (rule conjI)
  let ?env = "example_env (\<lambda>p. False)"
  let ?lvl = "example_level\<lparr>m_filename := ''level1.stl'', m_name := ''Level 1'',
                m_license := ''CC-BY-SA 4.0 International'',
                m_sectors := [\<lparr>sector_name = ''main'', sector_content = ()\<rparr>]\<rparr>"
  have e: "from_nothing ?env ''d'' [] = Some (?lvl, [Assign_filename ''level1.stl''])"
    by code_simp
  from filename_assigned_once[where env = ?env and tr = "[]" and basedir = "''d''", THEN conjunct2, THEN conjunct1, rule_format, OF e]
  have "filename_assignments [Assign_filename ''level1.stl''] = [m_filename ?lvl]"
    by simp
  with e show "\<exists>lvl tr'. from_nothing ?env ''d'' [] = Some (lvl, tr')
      \<and> filename_assignments tr' = [m_filename lvl] \<and> m_filename lvl = ''level1.stl''"
    by simp
next
  let ?env = "example_env (\<lambda>p. False)"
  let ?tr = "[Log_warning ''[fixture] level format version 99 is not supported'']"
  have e: "from_stream ?env ''levels/v99.stl'' ''fixture'' False [] = (Inr example_level, ?tr)"
    by code_simp
  have n: "Level_new ?env = example_level" by (simp add: example_env_def)
  from filename_assigned_once[where env = ?env and tr = "[]" and stream = "''levels/v99.stl''"
      and label = "''fixture''" and editable = False,
      THEN conjunct2, THEN conjunct2, THEN conjunct2, rule_format, OF e]
  have "filename_assignments ?tr = [] \<and> m_filename example_level = []"
    by (simp add: n example_level_def)
  with e show "\<exists>lvl tr'. from_stream ?env ''levels/v99.stl'' ''fixture'' False [] = (Inr lvl, tr')
      \<and> filename_assignments tr' = [] \<and> m_filename lvl = []"
    by simp
qed

text \<open>
  The claim as it was stated fails for \<open>from_stream\<close>: a legacy document read from a stream
  loads successfully, with its one sector, and the filename field is assigned not once but
  never.
\<close>

theorem from_stream_never_assigns_filename:
  "fst (from_stream (example_env (\<lambda>p. False)) ''levels/old.stl'' ''fixture'' True [])
     = Inr (example_level\<lparr>m_name := ''Foo'', m_author := ''Bar'',
              m_sectors := [\<lparr>sector_name = ''main'', sector_content = ()\<rparr>], m_stats := 1\<rparr>)
   \<and> filename_assignments (snd (from_stream (example_env (\<lambda>p. False)) ''levels/old.stl'' ''fixture'' True []))
     = []"
  by code_simp

subsection \<open>The two formats\<close>

lemma block_Nil_returns: "block [] p = (Inr u, p') \<longleftrightarrow> p' = p"
  by (auto simp: block.simps)

lemma block_Cons_returns:
  "block (c # cs) p = (Inr u, p') \<longleftrightarrow> (\<exists>p1. c p = (Inr (), p1) \<and> block cs p1 = (Inr u, p'))"
  by (auto simp: block.simps split: prod.splits sum.splits)

lemma read_string_result_keeps:
  assumes "read_string env mapping key store p = (r, p')"
    and "\<And>v q. obs (q\<lparr>m_level := store v (m_level q)\<rparr>) = obs q"
  shows "obs p' = obs p"
  using read_string_keeps[where obs = obs and store = store and env = env and mapping = mapping
      and key = key and p = p, OF assms(2)] assms(1)
  by simp

lemma read_float_result_keeps:
  assumes "read_float env mapping key store p = (r, p')"
    and "\<And>v q. obs (q\<lparr>m_level := store v (m_level q)\<rparr>) = obs q"
  shows "obs p' = obs p"
  using read_float_keeps[where obs = obs and store = store and env = env and mapping = mapping
      and key = key and p = p, OF assms(2)] assms(1)
  by simp

text \<open>
  The loop over the iterator: when it returns, the sectors it appended are, in order, the
  results of the current-format builder on the children whose key is \<^verbatim>\<open>sector\<close>.
\<close>

lemma load_sectors_appends:
  assumes "load_sectors env kids p = (Inr u, p')"
  shows "\<exists>new. m_sectors (m_level p') = m_sectors (m_level p) @ new
           \<and> list_all2 (\<lambda>s node. \<exists>l. SectorParser_from_reader env l node (m_editable p) = Inr s)
                new (map snd (filter (\<lambda>(key, node). key = ''sector'') kids))"
  using assms
proof (induction kids arbitrary: p)
  case Nil
  then show ?case by simp
next
  case (Cons kid kids)
  obtain key node where kid: "kid = (key, node)" by (cases kid)
  show ?case
  proof (cases "key = ''sector''")
    case False
    with Cons.prems kid have "load_sectors env kids p = (Inr u, p')" by simp
    from Cons.IH[OF this] False kid show ?thesis by simp
  next
    case True
    show ?thesis
    proof (cases "SectorParser_from_reader env (m_level p) node (m_editable p)")
      case (Inl e)
      with Cons.prems True kid show ?thesis by simp
    next
      case (Inr s)
      let ?q = "p\<lparr>m_level := add_sector s (m_level p)\<rparr>"
      from Cons.prems True kid Inr have "load_sectors env kids ?q = (Inr u, p')" by simp
      from Cons.IH[OF this] obtain new
        where new: "m_sectors (m_level p') = m_sectors (m_level ?q) @ new"
          and all: "list_all2 (\<lambda>s node. \<exists>l. SectorParser_from_reader env l node (m_editable ?q) = Inr s)
                      new (map snd (filter (\<lambda>(key, node). key = ''sector'') kids))"
        by blast
      have "m_sectors (m_level p') = m_sectors (m_level p) @ (s # new)"
        using new by (simp add: add_sector_def)
      moreover have "list_all2 (\<lambda>s node. \<exists>l. SectorParser_from_reader env l node (m_editable p) = Inr s)
                      (s # new) (map snd (filter (\<lambda>(key, node). key = ''sector'') (kid # kids)))"
        using all Inr True kid by auto
      ultimately show ?thesis by blast
    qed
  qed
qed

lemma load_sectors_returns:
  assumes "\<forall>l node. \<exists>s. SectorParser_from_reader env l node (m_editable p) = Inr s"
  shows "\<exists>p'. load_sectors env kids p = (Inr (), p')"
  using assms
proof (induction kids arbitrary: p)
  case Nil
  show ?case by simp
next
  case (Cons kid kids)
  obtain key node where kid: "kid = (key, node)" by (cases kid)
  show ?case
  proof (cases "key = ''sector''")
    case False
    with Cons kid show ?thesis by simp
  next
    case True
    from Cons.prems obtain s where s: "SectorParser_from_reader env (m_level p) node (m_editable p) = Inr s"
      by blast
    let ?q = "p\<lparr>m_level := add_sector s (m_level p)\<rparr>"
    have "\<exists>p'. load_sectors env kids ?q = (Inr (), p')"
      by (rule Cons.IH) (use Cons.prems in simp)
    with True kid s show ?thesis by simp
  qed
qed

lemma read_string_returns:
  "get_string env mapping key = Inr r \<Longrightarrow> \<exists>p'. read_string env mapping key store p = (Inr (), p')"
  by (simp add: read_string_def split: option.splits)

lemma read_float_returns:
  "get_float env mapping key = Inr r \<Longrightarrow> \<exists>p'. read_float env mapping key store p = (Inr (), p')"
  by (simp add: read_float_def split: option.splits)

text \<open>
  Claim C1. For every version-2 document (valid root tag, \<^verbatim>\<open>version\<close> read as 2), a load that
  returns has appended to the level exactly one sector for each root child whose key equals
  \<^verbatim>\<open>sector\<close>: the appended sectors correspond one to one, in document order, to those
  children, each being what the builder's current-format entry point returned for that
  child node; children with any other key contribute nothing. The load does return when the
  reads of the metadata fields and the builder do not throw.
\<close>

theorem version2_sectors_in_document_order:
  fixes env :: "('m, 'c, 'f, 't) env" and p :: "('c, 'f, 't) parser"
  assumes "get_root_name doc = ''supertux-level''"
    and "get_int env (get_root_mapping doc) ''version'' = Inr (Some 2)"
  shows
    "(\<forall>p'. load env doc p = (Inr (), p') \<longrightarrow>
        (\<exists>new. m_sectors (m_level p') = m_sectors (m_level p) @ new
           \<and> list_all2 (\<lambda>s node. \<exists>l. SectorParser_from_reader env l node (m_editable p) = Inr s)
                new (map snd (filter (\<lambda>(key, node). key = ''sector'') (get_iter env (get_root_mapping doc))))))
     \<and> ((\<forall>key. \<exists>r. get_string env (get_root_mapping doc) key = Inr r)
         \<and> (\<exists>r. get_float env (get_root_mapping doc) ''target-time'' = Inr r)
         \<and> (\<forall>l node. \<exists>s. SectorParser_from_reader env l node (m_editable p) = Inr s)
        \<longrightarrow> (\<exists>p'. load env doc p = (Inr (), p')))"
proof (intro conjI allI impI)
  let ?m = "get_root_mapping doc"
  let ?obs = "\<lambda>q :: ('c, 'f, 't) parser. (m_sectors (m_level q), m_editable q)"
  let ?body = "[read_string env ?m ''tileset'' (\<lambda>v l. l\<lparr>m_tileset := v\<rparr>),
                read_string env ?m ''name'' (\<lambda>v l. l\<lparr>m_name := v\<rparr>),
                read_string env ?m ''author'' (\<lambda>v l. l\<lparr>m_author := v\<rparr>),
                read_string env ?m ''contact'' (\<lambda>v l. l\<lparr>m_contact := v\<rparr>),
                read_string env ?m ''license'' (\<lambda>v l. l\<lparr>m_license := v\<rparr>),
                read_float env ?m ''target-time'' (\<lambda>v l. l\<lparr>m_target_time := v\<rparr>),
                load_sectors env (get_iter env ?m),
                ok (license_warning doc)]"
  have unfold: "load env doc q = block [block ?body, ok (stats_init env)] q" for q
    using assms by (simp add: load_def Let_def)
  {
    fix p'
    assume "load env doc p = (Inr (), p')"
    then obtain p1 p2 p3 p4 p5 p6 p7 p8
      where r1: "read_string env ?m ''tileset'' (\<lambda>v l. l\<lparr>m_tileset := v\<rparr>) p = (Inr (), p1)"
        and r2: "read_string env ?m ''name'' (\<lambda>v l. l\<lparr>m_name := v\<rparr>) p1 = (Inr (), p2)"
        and r3: "read_string env ?m ''author'' (\<lambda>v l. l\<lparr>m_author := v\<rparr>) p2 = (Inr (), p3)"
        and r4: "read_string env ?m ''contact'' (\<lambda>v l. l\<lparr>m_contact := v\<rparr>) p3 = (Inr (), p4)"
        and r5: "read_string env ?m ''license'' (\<lambda>v l. l\<lparr>m_license := v\<rparr>) p4 = (Inr (), p5)"
        and r6: "read_float env ?m ''target-time'' (\<lambda>v l. l\<lparr>m_target_time := v\<rparr>) p5 = (Inr (), p6)"
        and r7: "load_sectors env (get_iter env ?m) p6 = (Inr (), p7)"
        and r8: "ok (license_warning doc) p7 = (Inr (), p8)"
        and r9: "ok (stats_init env) p8 = (Inr (), p')"
      unfolding unfold block_Cons_returns block_Nil_returns by blast
    have k1: "?obs p1 = ?obs p"
      by (rule read_string_result_keeps[where obs = ?obs, OF r1]) simp
    have k2: "?obs p2 = ?obs p1"
      by (rule read_string_result_keeps[where obs = ?obs, OF r2]) simp
    have k3: "?obs p3 = ?obs p2"
      by (rule read_string_result_keeps[where obs = ?obs, OF r3]) simp
    have k4: "?obs p4 = ?obs p3"
      by (rule read_string_result_keeps[where obs = ?obs, OF r4]) simp
    have k5: "?obs p5 = ?obs p4"
      by (rule read_string_result_keeps[where obs = ?obs, OF r5]) simp
    have k6: "?obs p6 = ?obs p5"
      by (rule read_float_result_keeps[where obs = ?obs, OF r6]) simp
    from k1 k2 k3 k4 k5 k6 have before: "m_sectors (m_level p6) = m_sectors (m_level p)"
      "m_editable p6 = m_editable p" by simp_all
    from r8 r9 have after: "m_sectors (m_level p') = m_sectors (m_level p7)"
      by (auto simp: ok_def license_warning_def log_warning_def stats_init_def)
    from load_sectors_appends[OF r7] before after
    show "\<exists>new. m_sectors (m_level p') = m_sectors (m_level p) @ new
           \<and> list_all2 (\<lambda>s node. \<exists>l. SectorParser_from_reader env l node (m_editable p) = Inr s)
                new (map snd (filter (\<lambda>(key, node). key = ''sector'') (get_iter env ?m)))"
      by simp
  }
  assume ok: "(\<forall>key. \<exists>r. get_string env ?m key = Inr r)
         \<and> (\<exists>r. get_float env ?m ''target-time'' = Inr r)
         \<and> (\<forall>l node. \<exists>s. SectorParser_from_reader env l node (m_editable p) = Inr s)"
  then have gs: "\<exists>r. get_string env ?m key = Inr r" for key by blast
  from ok obtain rf where gf: "get_float env ?m ''target-time'' = Inr rf" by blast
  from ok have sb: "\<forall>l node. \<exists>s. SectorParser_from_reader env l node (m_editable p) = Inr s" by blast
  from gs obtain t1 where t1: "get_string env ?m ''tileset'' = Inr t1" by blast
  from gs obtain t2 where t2: "get_string env ?m ''name'' = Inr t2" by blast
  from gs obtain t3 where t3: "get_string env ?m ''author'' = Inr t3" by blast
  from gs obtain t4 where t4: "get_string env ?m ''contact'' = Inr t4" by blast
  from gs obtain t5 where t5: "get_string env ?m ''license'' = Inr t5" by blast
  from read_string_returns[OF t1] obtain p1
    where r1: "read_string env ?m ''tileset'' (\<lambda>v l. l\<lparr>m_tileset := v\<rparr>) p = (Inr (), p1)" by blast
  from read_string_returns[OF t2] obtain p2
    where r2: "read_string env ?m ''name'' (\<lambda>v l. l\<lparr>m_name := v\<rparr>) p1 = (Inr (), p2)" by blast
  from read_string_returns[OF t3] obtain p3
    where r3: "read_string env ?m ''author'' (\<lambda>v l. l\<lparr>m_author := v\<rparr>) p2 = (Inr (), p3)" by blast
  from read_string_returns[OF t4] obtain p4
    where r4: "read_string env ?m ''contact'' (\<lambda>v l. l\<lparr>m_contact := v\<rparr>) p3 = (Inr (), p4)" by blast
  from read_string_returns[OF t5] obtain p5
    where r5: "read_string env ?m ''license'' (\<lambda>v l. l\<lparr>m_license := v\<rparr>) p4 = (Inr (), p5)" by blast
  from read_float_returns[OF gf] obtain p6
    where r6: "read_float env ?m ''target-time'' (\<lambda>v l. l\<lparr>m_target_time := v\<rparr>) p5 = (Inr (), p6)" by blast
  have k1: "?obs p1 = ?obs p"
    by (rule read_string_result_keeps[where obs = ?obs, OF r1]) simp
  have k2: "?obs p2 = ?obs p1"
    by (rule read_string_result_keeps[where obs = ?obs, OF r2]) simp
  have k3: "?obs p3 = ?obs p2"
    by (rule read_string_result_keeps[where obs = ?obs, OF r3]) simp
  have k4: "?obs p4 = ?obs p3"
    by (rule read_string_result_keeps[where obs = ?obs, OF r4]) simp
  have k5: "?obs p5 = ?obs p4"
    by (rule read_string_result_keeps[where obs = ?obs, OF r5]) simp
  have k6: "?obs p6 = ?obs p5"
    by (rule read_float_result_keeps[where obs = ?obs, OF r6]) simp
  from k1 k2 k3 k4 k5 k6 have "m_editable p6 = m_editable p" by simp
  with sb have "\<forall>l node. \<exists>s. SectorParser_from_reader env l node (m_editable p6) = Inr s" by simp
  from load_sectors_returns[OF this] obtain p7
    where r7: "load_sectors env (get_iter env ?m) p6 = (Inr (), p7)" by blast
  have "block [block ?body, ok (stats_init env)] p
          = (Inr (), stats_init env (license_warning doc p7))"
    using r1 r2 r3 r4 r5 r6 r7 by (simp add: block.simps ok_def)
  then show "\<exists>p'. load env doc p = (Inr (), p')"
    unfolding unfold by blast
qed

theorem version2_sectors_in_document_order_witness:
  "\<exists>p'. load (example_env (\<lambda>p. False))
             \<lparr>get_filename = ''levels/a.stl'', get_root_name = ''supertux-level'', get_root_mapping = ''v2''\<rparr>
             \<lparr>m_level = example_level, m_editable = True, trace = []\<rparr> = (Inr (), p')
        \<and> map sector_name (m_sectors (m_level p')) = [''A'', ''B'', ''C'']"
proof -
  let ?env = "example_env (\<lambda>p. False)"
  let ?doc = "\<lparr>get_filename = ''levels/a.stl'', get_root_name = ''supertux-level'', get_root_mapping = ''v2''\<rparr>"
  let ?p = "\<lparr>m_level = example_level, m_editable = True, trace = []\<rparr>"
  have a: "get_root_name ?doc = ''supertux-level''" by simp
  have b: "get_int ?env (get_root_mapping ?doc) ''version'' = Inr (Some 2)"
    by (simp add: example_env_def)
  have c: "(\<forall>key. \<exists>r. get_string ?env (get_root_mapping ?doc) key = Inr r)
         \<and> (\<exists>r. get_float ?env (get_root_mapping ?doc) ''target-time'' = Inr r)
         \<and> (\<forall>l node. \<exists>s. SectorParser_from_reader ?env l node (m_editable ?p) = Inr s)"
    by (simp add: example_env_def)
  note t = version2_sectors_in_document_order[OF a b, of ?p]
  from mp[OF t[THEN conjunct2] c] obtain p' where ret: "load ?env ?doc ?p = (Inr (), p')" by blast
  have kids: "map snd (filter (\<lambda>(key, node). key = ''sector'') (get_iter ?env (get_root_mapping ?doc)))
                = [''A'', ''B'', ''C'']"
    by (simp add: example_env_def)
  have build: "SectorParser_from_reader ?env l node e = Inr s \<longleftrightarrow> s = \<lparr>sector_name = node, sector_content = ()\<rparr>"
    for l node e s
    by (auto simp: example_env_def)
  from t[THEN conjunct1, rule_format, OF ret] obtain new
    where "m_sectors (m_level p') = m_sectors (m_level ?p) @ new"
      and "list_all2 (\<lambda>s node. \<exists>l. SectorParser_from_reader ?env l node (m_editable ?p) = Inr s)
             new [''A'', ''B'', ''C'']"
    unfolding kids by blast
  then have "map sector_name (m_sectors (m_level p')) = [''A'', ''B'', ''C'']"
    by (auto simp: build list_all2_Cons2 example_level_def)
  with ret show ?thesis by (intro exI[where x = p'] conjI)
qed

text \<open>
  Claim C2. For every level document whose root mapping has no \<^verbatim>\<open>version\<close> field, loading
  behaves as for version 1: the load is the load of the same document with \<^verbatim>\<open>version\<close>
  read as 1. The legacy path is taken: a load that returns has logged the old-format
  notice, has read \<^verbatim>\<open>name\<close> and \<^verbatim>\<open>author\<close> from the root mapping (a field that is absent
  keeps its value), and has appended exactly one sector, the one the builder's legacy entry
  point returned for that same root mapping and the level with the name and author read.
  The load does return when the two reads and the builder do not throw.
\<close>

theorem missing_version_is_legacy:
  fixes env :: "('m, 'c, 'f, 't) env" and p :: "('c, 'f, 't) parser"
  assumes "get_root_name doc = ''supertux-level''"
    and "get_int env (get_root_mapping doc) ''version'' = Inr None"
  shows
    "load env doc p
       = load (env\<lparr>get_int := (\<lambda>m key. if key = ''version'' then Inr (Some 1) else get_int env m key)\<rparr>) doc p
     \<and> (\<forall>p'. load env doc p = (Inr (), p') \<longrightarrow>
          (\<exists>name author s.
              get_string env (get_root_mapping doc) ''name'' = Inr name
            \<and> get_string env (get_root_mapping doc) ''author'' = Inr author
            \<and> m_name (m_level p') = (case name of None \<Rightarrow> m_name (m_level p) | Some v \<Rightarrow> v)
            \<and> m_author (m_level p') = (case author of None \<Rightarrow> m_author (m_level p) | Some v \<Rightarrow> v)
            \<and> SectorParser_from_reader_old_format env
                 ((m_level p)\<lparr>m_name := m_name (m_level p'), m_author := m_author (m_level p')\<rparr>)
                 (get_root_mapping doc) (m_editable p) = Inr s
            \<and> m_sectors (m_level p') = m_sectors (m_level p) @ [s]
            \<and> trace p' = trace p @ [Log_info (''['' @ get_filename doc @ ''] level uses old format: version 1'')]))
     \<and> ((\<exists>name. get_string env (get_root_mapping doc) ''name'' = Inr name)
         \<and> (\<exists>author. get_string env (get_root_mapping doc) ''author'' = Inr author)
         \<and> (\<forall>l. \<exists>s. SectorParser_from_reader_old_format env l (get_root_mapping doc) (m_editable p) = Inr s)
        \<longrightarrow> (\<exists>p'. load env doc p = (Inr (), p')))"
proof (intro conjI allI impI)
  let ?m = "get_root_mapping doc"
  let ?env1 = "env\<lparr>get_int := (\<lambda>m key. if key = ''version'' then Inr (Some 1) else get_int env m key)\<rparr>"
  let ?msg = "''['' @ get_filename doc @ ''] level uses old format: version 1''"
  have unfold: "load env doc q
      = block [block [ok (log_info ?msg), load_old_format env ?m], ok (stats_init env)] q" for q
    using assms by (simp add: load_def Let_def)
  have rs: "read_string ?env1 m key store = read_string env m key store" for m key store
    by (rule ext) (simp add: read_string_def)
  have bo: "build_old_format ?env1 m = build_old_format env m" for m
    by (rule ext) (simp add: build_old_format_def)
  have same: "load_old_format ?env1 ?m = load_old_format env ?m"
    by (simp add: load_old_format_def rs bo)
  have stats: "stats_init ?env1 = stats_init env"
    by (rule ext) (simp add: stats_init_def)
  have "load ?env1 doc q
      = block [block [ok (log_info ?msg), load_old_format ?env1 ?m], ok (stats_init ?env1)] q" for q
    using assms by (simp add: load_def Let_def)
  then show "load env doc p = load ?env1 doc p"
    by (simp add: unfold same stats)
  {
    fix p'
    assume "load env doc p = (Inr (), p')"
    then obtain p2 p3 p4
      where r2: "read_string env ?m ''name'' (\<lambda>v l. l\<lparr>m_name := v\<rparr>) (log_info ?msg p) = (Inr (), p2)"
        and r3: "read_string env ?m ''author'' (\<lambda>v l. l\<lparr>m_author := v\<rparr>) p2 = (Inr (), p3)"
        and r4: "build_old_format env ?m p3 = (Inr (), p4)"
        and r5: "p' = stats_init env p4"
      unfolding unfold load_old_format_def block_Cons_returns block_Nil_returns
      by (auto simp: ok_def)
    from r2 obtain name where n: "get_string env ?m ''name'' = Inr name"
      and p2: "p2 = (case name of None \<Rightarrow> log_info ?msg p
                     | Some v \<Rightarrow> (log_info ?msg p)\<lparr>m_level := (m_level (log_info ?msg p))\<lparr>m_name := v\<rparr>\<rparr>)"
      by (auto simp: read_string_def split: sum.splits option.splits)
    from r3 obtain author where a: "get_string env ?m ''author'' = Inr author"
      and p3: "p3 = (case author of None \<Rightarrow> p2 | Some v \<Rightarrow> p2\<lparr>m_level := (m_level p2)\<lparr>m_author := v\<rparr>\<rparr>)"
      by (auto simp: read_string_def split: sum.splits option.splits)
    from r4 obtain s where s: "SectorParser_from_reader_old_format env (m_level p3) ?m (m_editable p3) = Inr s"
      and p4: "p4 = p3\<lparr>m_level := add_sector s (m_level p3)\<rparr>"
      by (auto simp: build_old_format_def split: sum.splits)
    have l3: "m_level p3 = (m_level p)\<lparr>m_name := (case name of None \<Rightarrow> m_name (m_level p) | Some v \<Rightarrow> v),
                m_author := (case author of None \<Rightarrow> m_author (m_level p) | Some v \<Rightarrow> v)\<rparr>"
      and e3: "m_editable p3 = m_editable p" and t3: "trace p3 = trace p @ [Log_info ?msg]"
      by (simp_all add: p3 p2 log_info_def split: option.splits)
    have f1: "m_name (m_level p') = (case name of None \<Rightarrow> m_name (m_level p) | Some v \<Rightarrow> v)"
      and f2: "m_author (m_level p') = (case author of None \<Rightarrow> m_author (m_level p) | Some v \<Rightarrow> v)"
      and f3: "m_sectors (m_level p') = m_sectors (m_level p) @ [s]"
      and f4: "trace p' = trace p @ [Log_info ?msg]"
      by (simp_all add: r5 p4 stats_init_def add_sector_def l3 t3)
    from n a s f1 f2 f3 f4
    show "\<exists>name author s.
              get_string env ?m ''name'' = Inr name
            \<and> get_string env ?m ''author'' = Inr author
            \<and> m_name (m_level p') = (case name of None \<Rightarrow> m_name (m_level p) | Some v \<Rightarrow> v)
            \<and> m_author (m_level p') = (case author of None \<Rightarrow> m_author (m_level p) | Some v \<Rightarrow> v)
            \<and> SectorParser_from_reader_old_format env
                 ((m_level p)\<lparr>m_name := m_name (m_level p'), m_author := m_author (m_level p')\<rparr>)
                 ?m (m_editable p) = Inr s
            \<and> m_sectors (m_level p') = m_sectors (m_level p) @ [s]
            \<and> trace p' = trace p @ [Log_info ?msg]"
      by (intro exI[where x = name] exI[where x = author] exI[where x = s]) (simp add: l3 e3)
  }
  assume ok: "(\<exists>name. get_string env ?m ''name'' = Inr name)
         \<and> (\<exists>author. get_string env ?m ''author'' = Inr author)
         \<and> (\<forall>l. \<exists>s. SectorParser_from_reader_old_format env l ?m (m_editable p) = Inr s)"
  then obtain name author where n: "get_string env ?m ''name'' = Inr name"
    and a: "get_string env ?m ''author'' = Inr author"
    and sb: "\<forall>l. \<exists>s. SectorParser_from_reader_old_format env l ?m (m_editable p) = Inr s"
    by blast
  from read_string_returns[OF n] obtain p2
    where r2: "read_string env ?m ''name'' (\<lambda>v l. l\<lparr>m_name := v\<rparr>) (log_info ?msg p) = (Inr (), p2)"
    by blast
  from read_string_returns[OF a] obtain p3
    where r3: "read_string env ?m ''author'' (\<lambda>v l. l\<lparr>m_author := v\<rparr>) p2 = (Inr (), p3)"
    by blast
  have "m_editable p2 = m_editable (log_info ?msg p)"
    by (rule read_string_result_keeps[where obs = m_editable, OF r2]) simp
  moreover have "m_editable p3 = m_editable p2"
    by (rule read_string_result_keeps[where obs = m_editable, OF r3]) simp
  ultimately have "m_editable p3 = m_editable p" by (simp add: log_info_def)
  with sb[rule_format, of "m_level p3"]
  obtain s where "SectorParser_from_reader_old_format env (m_level p3) ?m (m_editable p3) = Inr s"
    by auto
  then have r4: "build_old_format env ?m p3 = (Inr (), p3\<lparr>m_level := add_sector s (m_level p3)\<rparr>)"
    by (simp add: build_old_format_def)
  have "load env doc p = (Inr (), stats_init env (p3\<lparr>m_level := add_sector s (m_level p3)\<rparr>))"
    using r2 r3 r4 by (simp add: unfold load_old_format_def block.simps ok_def)
  then show "\<exists>p'. load env doc p = (Inr (), p')" by blast
qed

theorem missing_version_is_legacy_witness:
  "\<exists>p' s. load (example_env (\<lambda>p. False))
             \<lparr>get_filename = ''levels/old.stl'', get_root_name = ''supertux-level'', get_root_mapping = ''v1''\<rparr>
             \<lparr>m_level = example_level, m_editable = False, trace = []\<rparr> = (Inr (), p')
        \<and> m_name (m_level p') = ''Foo'' \<and> m_author (m_level p') = ''Bar''
        \<and> m_sectors (m_level p') = [s]
        \<and> trace p' = [Log_info ''[levels/old.stl] level uses old format: version 1'']"
proof -
  let ?env = "example_env (\<lambda>p. False)"
  let ?doc = "\<lparr>get_filename = ''levels/old.stl'', get_root_name = ''supertux-level'', get_root_mapping = ''v1''\<rparr>"
  let ?p = "\<lparr>m_level = example_level, m_editable = False, trace = []\<rparr>"
  have a: "get_root_name ?doc = ''supertux-level''" by simp
  have b: "get_int ?env (get_root_mapping ?doc) ''version'' = Inr None"
    by (simp add: example_env_def)
  have n: "get_string ?env (get_root_mapping ?doc) ''name'' = Inr (Some ''Foo'')"
    and u: "get_string ?env (get_root_mapping ?doc) ''author'' = Inr (Some ''Bar'')"
    by (simp_all add: example_env_def)
  have c: "(\<exists>name. get_string ?env (get_root_mapping ?doc) ''name'' = Inr name)
         \<and> (\<exists>author. get_string ?env (get_root_mapping ?doc) ''author'' = Inr author)
         \<and> (\<forall>l. \<exists>s. SectorParser_from_reader_old_format ?env l (get_root_mapping ?doc) (m_editable ?p) = Inr s)"
    by (simp add: example_env_def)
  note t = missing_version_is_legacy[OF a b, of ?p]
  from mp[OF t[THEN conjunct2, THEN conjunct2] c] obtain p' where ret: "load ?env ?doc ?p = (Inr (), p')"
    by blast
  from t[THEN conjunct2, THEN conjunct1, rule_format, OF ret] n u
  obtain s where "m_name (m_level p') = ''Foo''" "m_author (m_level p') = ''Bar''"
    "m_sectors (m_level p') = m_sectors (m_level ?p) @ [s]"
    "trace p' = trace ?p @ [Log_info (''['' @ get_filename ?doc @ ''] level uses old format: version 1'')]"
    by auto
  with ret show ?thesis by (auto simp: example_level_def)
qed

end
